theory Spec2Isabelle
  imports Complex_Main "HOL-Library.Word"
begin

unbundle bit_operations_syntax

section \<open>The live voice conversation of features/LiveConvo.tsx\<close>

text \<open>
  The component streams microphone audio to a remote speech service, plays the audio it
  gets back and keeps a transcript. The theory embeds its codec functions (\<open>encode\<close>,
  \<open>decode\<close>, \<open>decodeAudioData\<close>, the quantisation loop of \<open>onaudioprocess\<close>) and the
  controller (\<open>startConversation\<close>, \<open>stopConversation\<close> and the callbacks \<open>onopen\<close>,
  \<open>onmessage\<close>, \<open>onerror\<close>, \<open>onclose\<close>) over an explicit state.

  Numbers. Audio samples are 32-bit floats and clock values are doubles in the source.
  They are modelled as rationals: a float is a dyadic rational, the only arithmetic the
  codec does on samples is a multiplication and a division by \<open>32768 = 2 ^ 15\<close>, which
  are exact on floats of this range, and every decoded sample \<open>k / 32768\<close> with
  \<open>- 32768 \<le> k < 32768\<close> is a float again. Clock arithmetic (\<open>max\<close> and one addition)
  is modelled exactly, without the rounding of the double addition.
\<close>

subsection \<open>Errors\<close>

text \<open>The exceptions the embedded code can meet, as values.\<close>

datatype error =
    TypeError              \<comment> \<open>property access on \<open>undefined\<close> or \<open>null\<close>\<close>
  | RangeError             \<comment> \<open>\<open>new Int16Array(buffer)\<close> on a buffer of odd byte length\<close>
  | InvalidCharacterError  \<comment> \<open>\<open>atob\<close> on a string that is not base64\<close>
  | NotSupportedError      \<comment> \<open>\<open>createBuffer\<close> refusing its arguments\<close>

subsection \<open>The platform's base64: \<open>btoa\<close> and \<open>atob\<close>\<close>

text \<open>
  \<open>btoa\<close> and \<open>atob\<close> are the browser's, not the repository's. They are modelled from
  the HTML standard: \<open>btoa\<close> is the base64 encoding of RFC 4648 with padding, \<open>atob\<close>
  is the standard's forgiving-base64 decode. A binary string (code units below 256) is a
  \<open>string\<close>, whose characters are bytes.
\<close>

definition b64char :: "nat \<Rightarrow> char" where
  "b64char n =
     (if n < 26 then char_of (65 + n)
      else if n < 52 then char_of (97 + (n - 26))
      else if n < 62 then char_of (48 + (n - 52))
      else if n = 62 then CHR ''+'' else CHR ''/'')"

definition b64val :: "char \<Rightarrow> nat option" where
  "b64val c =
     (let k = (of_char c :: nat) in
      if 65 \<le> k \<and> k \<le> 90 then Some (k - 65)
      else if 97 \<le> k \<and> k \<le> 122 then Some (k - 97 + 26)
      else if 48 \<le> k \<and> k \<le> 57 then Some (k - 48 + 52)
      else if c = CHR ''+'' then Some 62
      else if c = CHR ''/'' then Some 63
      else None)"

fun btoa :: "string \<Rightarrow> string" where
  "btoa [] = []"
| "btoa [a] =
     (let n = (of_char a :: nat) in
      [b64char (n div 4), b64char ((n mod 4) * 16), CHR ''='', CHR ''=''])"
| "btoa [a, b] =
     (let n = (of_char a :: nat); m = (of_char b :: nat) in
      [b64char (n div 4), b64char ((n mod 4) * 16 + m div 16),
       b64char ((m mod 16) * 4), CHR ''=''])"
| "btoa (a # b # c # rest) =
     (let n = (of_char a :: nat); m = (of_char b :: nat); k = (of_char c :: nat) in
      [b64char (n div 4), b64char ((n mod 4) * 16 + m div 16),
       b64char ((m mod 16) * 4 + k div 64), b64char (k mod 64)] @ btoa rest)"

text \<open>Forgiving-base64 decode, step 1: ASCII whitespace (TAB, LF, FF, CR, SPACE) is removed.\<close>

definition isAsciiWhitespace :: "char \<Rightarrow> bool" where
  "isAsciiWhitespace c \<longleftrightarrow> (of_char c :: nat) \<in> {9, 10, 12, 13, 32}"

text \<open>Step 2: when the length is a multiple of 4, one or two trailing \<open>=\<close> are removed.\<close>

definition removePadding :: "string \<Rightarrow> string" where
  "removePadding d =
     (if length d mod 4 = 0 then
        (if 2 \<le> length d \<and> last d = CHR ''='' \<and> last (butlast d) = CHR ''=''
           then butlast (butlast d)
         else if d \<noteq> [] \<and> last d = CHR ''='' then butlast d
         else d)
      else d)"

text \<open>Step 4: every remaining character must be of the alphabet.\<close>

fun sextets :: "string \<Rightarrow> nat list option" where
  "sextets [] = Some []"
| "sextets (c # cs) =
     (case b64val c of None \<Rightarrow> None
      | Some v \<Rightarrow> (case sextets cs of None \<Rightarrow> None | Some vs \<Rightarrow> Some (v # vs)))"

text \<open>
  Steps 5 to 10: four sextets give three bytes; of a rest of three sextets the last two
  bits are discarded, of a rest of two the last four.
\<close>

fun unpack :: "nat list \<Rightarrow> string" where
  "unpack (p # q # r # s # rest) =
     [char_of (p * 4 + q div 16), char_of ((q mod 16) * 16 + r div 4),
      char_of ((r mod 4) * 64 + s)] @ unpack rest"
| "unpack [p, q, r] = [char_of (p * 4 + q div 16), char_of ((q mod 16) * 16 + r div 4)]"
| "unpack [p, q] = [char_of (p * 4 + q div 16)]"
| "unpack _ = []"

text \<open>Step 3 is the length check: a remainder of 1 is a failure.\<close>

definition atob :: "string \<Rightarrow> error + string" where
  "atob s =
     (let d = removePadding (filter (\<lambda>c. \<not> isAsciiWhitespace c) s) in
      if length d mod 4 = 1 then Inl InvalidCharacterError
      else (case sextets d of None \<Rightarrow> Inl InvalidCharacterError
            | Some vs \<Rightarrow> Inr (unpack vs)))"

subsection \<open>\<open>encode\<close> and \<open>decode\<close> (lines 17 to 39)\<close>

type_synonym Uint8Array = "8 word list"
type_synonym Int16Array = "16 word list"
type_synonym Float32Array = "rat list"

text \<open>
  \<open>encode\<close> appends \<open>String.fromCharCode(bytes[i])\<close> for every byte and hands the binary
  string to \<open>btoa\<close>, which cannot fail on it: every code unit is below 256.
\<close>

definition encode :: "Uint8Array \<Rightarrow> string" where
  "encode bytes = btoa (map (\<lambda>b. char_of (unat b)) bytes)"

text \<open>
  \<open>decode\<close> stores \<open>binaryString.charCodeAt(i)\<close> into a \<open>Uint8Array\<close> of the string's
  length. An exception of \<open>atob\<close> is not caught.
\<close>

definition decode :: "string \<Rightarrow> error + Uint8Array" where
  "decode base64 =
     (case atob base64 of
        Inl e \<Rightarrow> Inl e
      | Inr binaryString \<Rightarrow> Inr (map (\<lambda>c. word_of_nat (of_char c)) binaryString))"

subsection \<open>Typed-array views\<close>

text \<open>
  Storing a number into an \<open>Int16Array\<close> truncates it towards zero and wraps it modulo
  \<open>2 ^ 16\<close> (the language's \<open>ToInt16\<close>).
\<close>

definition trunc :: "rat \<Rightarrow> int" where
  "trunc y = (if 0 \<le> y then \<lfloor>y\<rfloor> else \<lceil>y\<rceil>)"

definition toInt16 :: "rat \<Rightarrow> 16 word" where
  "toInt16 y = word_of_int (trunc y)"

text \<open>
  \<open>new Uint8Array(int16.buffer)\<close> reads the same memory bytewise, low byte first on the
  little-endian machines browsers run on; \<open>new Int16Array(data.buffer)\<close> reads it back
  pairwise and throws a \<open>RangeError\<close> when the byte length is odd.
\<close>

definition bytesOfInt16 :: "16 word \<Rightarrow> 8 word list" where
  "bytesOfInt16 w = [ucast w, ucast (drop_bit 8 w)]"

definition Uint8Array_of :: "Int16Array \<Rightarrow> Uint8Array" where
  "Uint8Array_of int16 = concat (map bytesOfInt16 int16)"

fun int16Pairs :: "8 word list \<Rightarrow> 16 word list" where
  "int16Pairs (lo # hi # rest) = (push_bit 8 (ucast hi) OR ucast lo) # int16Pairs rest"
| "int16Pairs _ = []"

definition Int16Array_of :: "Uint8Array \<Rightarrow> error + Int16Array" where
  "Int16Array_of bytes =
     (if odd (length bytes) then Inl RangeError else Inr (int16Pairs bytes))"

subsection \<open>The capture side: the loop of \<open>onaudioprocess\<close> (lines 176 to 185)\<close>

text \<open>The SDK's \<open>Blob\<close>: both properties are optional in its declaration.\<close>

record Blob =
  data :: "string option"
  mimeType :: "string option"

definition pcmBlob :: "Float32Array \<Rightarrow> Blob" where
  "pcmBlob inputData =
     (let int16 = map (\<lambda>x. toInt16 (x * 32768)) inputData
      in \<lparr>data = Some (encode (Uint8Array_of int16)),
          mimeType = Some ''audio/pcm;rate=16000''\<rparr>)"

subsection \<open>\<open>decodeAudioData\<close> (lines 50 to 61)\<close>

text \<open>
  The audio context is an argument of \<open>decodeAudioData\<close> and a browser object. Of its
  \<open>createBuffer\<close> the model keeps which requests (channels, frames, sample rate) it
  refuses with a \<open>NotSupportedError\<close>; an accepted request returns a buffer of that many
  zero-filled channels of that many frames, as the Web Audio API says.
\<close>

datatype AudioContextState = suspended | running | closed

record AudioContext =
  ctxId :: nat
  sampleRate :: nat
  state :: AudioContextState
  refuses :: "nat \<Rightarrow> nat \<Rightarrow> nat \<Rightarrow> bool"

record AudioBuffer =
  channelData :: "Float32Array list"
  bufferRate :: nat

definition duration :: "AudioBuffer \<Rightarrow> rat" where
  "duration buffer =
     (case channelData buffer of [] \<Rightarrow> 0
      | ch # _ \<Rightarrow> of_nat (length ch) / of_nat (bufferRate buffer))"

definition createBuffer :: "AudioContext \<Rightarrow> nat \<Rightarrow> nat \<Rightarrow> nat \<Rightarrow> error + AudioBuffer" where
  "createBuffer ctx numberOfChannels len rate =
     (if refuses ctx numberOfChannels len rate then Inl NotSupportedError
      else Inr \<lparr>channelData = replicate numberOfChannels (replicate len 0),
                bufferRate = rate\<rparr>)"

text \<open>
  Modelled from the Web Audio API: a context refuses a request with a zero argument or
  one outside the ranges it supports; every context supports 1 to 32 channels and
  rates of 8000 to 96000 Hz.
\<close>

definition webAudioRefuses :: "nat \<Rightarrow> nat \<Rightarrow> nat \<Rightarrow> bool" where
  "webAudioRefuses numberOfChannels len rate \<longleftrightarrow>
     numberOfChannels = 0 \<or> 32 < numberOfChannels \<or> len = 0 \<or> rate < 8000 \<or> 96000 < rate"

definition newAudioContext :: "nat \<Rightarrow> nat \<Rightarrow> AudioContext" where
  "newAudioContext i rate =
     \<lparr>ctxId = i, sampleRate = rate, state = running, refuses = webAudioRefuses\<rparr>"

text \<open>
  \<open>frameCount\<close> is the quotient \<open>dataInt16.length / numChannels\<close>, which \<open>createBuffer\<close>
  truncates to a whole number of frames (for \<open>numChannels = 0\<close> the quotient is infinite
  or not a number and converts to 0, which is also what \<open>div\<close> gives). The inner loop
  runs while \<open>i < frameCount\<close>; a store past the end of a channel is ignored, so the
  frames \<open>i\<close> below the truncated count are the ones written, and for those
  \<open>i * numChannels + channel\<close> is below \<open>dataInt16.length\<close>.
\<close>

definition decodeAudioData ::
  "Uint8Array \<Rightarrow> AudioContext \<Rightarrow> nat \<Rightarrow> nat \<Rightarrow> error + AudioBuffer" where
  "decodeAudioData dat ctx rate numChannels =
     (case Int16Array_of dat of
        Inl e \<Rightarrow> Inl e
      | Inr dataInt16 \<Rightarrow>
          (let frameCount = length dataInt16 div numChannels in
           case createBuffer ctx numChannels frameCount rate of
             Inl e \<Rightarrow> Inl e
           | Inr buffer \<Rightarrow>
               Inr (buffer\<lparr>channelData :=
                      map (\<lambda>channel.
                             map (\<lambda>i. of_int (sint (dataInt16 ! (i * numChannels + channel)))
                                       / 32768)
                               [0 ..< frameCount])
                        [0 ..< numChannels]\<rparr>)))"

text \<open>Line 223: the handler decodes a chunk as mono audio at 24000 Hz.\<close>

definition decodeChunk :: "AudioContext \<Rightarrow> string \<Rightarrow> error + AudioBuffer" where
  "decodeChunk ctx base64 =
     (case decode base64 of
        Inl e \<Rightarrow> Inl e
      | Inr bytes \<Rightarrow> decodeAudioData bytes ctx 24000 1)"

subsection \<open>Inbound messages\<close>

text \<open>
  The parts of the SDK's \<open>LiveServerMessage\<close> that the handler reads. A
  \<open>Transcription\<close> is given by its one property \<open>text\<close>, which is optional; the flags
  \<open>turnComplete\<close> and \<open>interrupted\<close> are \<open>False\<close> when absent.
\<close>

type_synonym Transcription = "string option"

record Part =
  inlineData :: "Blob option"

record Content =
  parts :: "Part list option"

record LiveServerContent =
  modelTurn :: "Content option"
  turnComplete :: bool
  interrupted :: bool
  inputTranscription :: "Transcription option"
  outputTranscription :: "Transcription option"

record LiveServerMessage =
  serverContent :: "LiveServerContent option"

subsection \<open>The component's state\<close>

text \<open>
  A transcript entry is the object literal \<open>{ speaker: ..., text: ... }\<close>, kept as the
  list of its properties in the order they are written.
\<close>

datatype jsValue = JString string | JNumber int

type_synonym TranscriptEntry = "(string \<times> jsValue) list"

text \<open>
  The calls the component makes on browser and SDK objects are kept, in order, in a
  trace. Objects are named by numbers handed out from a counter.
\<close>

datatype effect =
    GetUserMedia                \<comment> \<open>\<open>navigator.mediaDevices.getUserMedia\<close>\<close>
  | Connect nat                 \<comment> \<open>\<open>ai.live.connect\<close>, giving the session of this number\<close>
  | SessionClose nat            \<comment> \<open>\<open>session.close()\<close>\<close>
  | SendRealtimeInput nat Blob  \<comment> \<open>\<open>session.sendRealtimeInput\<close>\<close>
  | TrackStop nat               \<comment> \<open>\<open>track.stop()\<close> on the tracks of a media stream\<close>
  | Disconnect nat              \<comment> \<open>\<open>disconnect()\<close> on an audio node\<close>
  | ContextClose nat            \<comment> \<open>\<open>close()\<close> on an audio context\<close>
  | SourceStart nat rat rat     \<comment> \<open>\<open>sourceNode.start(when)\<close>, with the buffer's duration\<close>
  | SourceStop nat              \<comment> \<open>\<open>source.stop()\<close>\<close>

text \<open>
  The React state (\<open>isListening\<close>, \<open>status\<close>, \<open>transcripts\<close>), the refs of lines 71 to
  84, the trace, the counter, and the number of calls of \<open>startConversation\<close> that are
  suspended at their \<open>await\<close>. The set \<open>sources\<close> is a list in insertion order, which is
  the order a \<open>Set\<close> is iterated in; its members are fresh nodes, so none is added twice.
\<close>

record LiveConvo =
  isListening :: bool
  status :: string
  transcripts :: "TranscriptEntry list"
  sessionPromiseRef :: "nat option"
  mediaStreamRef :: "nat option"
  inputAudioContextRef :: "AudioContext option"
  outputAudioContextRef :: "AudioContext option"
  scriptProcessorRef :: "nat option"
  mediaStreamSourceRef :: "nat option"
  currentInputTranscription :: string
  currentOutputTranscription :: string
  nextStartTime :: rat
  sources :: "nat list"
  effects :: "effect list"
  fresh :: nat
  awaitingStream :: nat

definition initial :: LiveConvo where
  "initial =
     \<lparr>isListening = False, status = ''Idle. Press Start to talk.'', transcripts = [],
      sessionPromiseRef = None, mediaStreamRef = None, inputAudioContextRef = None,
      outputAudioContextRef = None, scriptProcessorRef = None, mediaStreamSourceRef = None,
      currentInputTranscription = [], currentOutputTranscription = [],
      nextStartTime = 0, sources = [], effects = [], fresh = 0, awaitingStream = 0\<rparr>"

subsection \<open>\<open>stopConversation\<close> (lines 92 to 128)\<close>

text \<open>
  One definition for each guarded block, in the order of the source. \<open>session.close()\<close>
  runs when the session promise resolves; the trace records the request.
\<close>

definition closeSession :: "LiveConvo \<Rightarrow> LiveConvo" where
  "closeSession c =
     (case sessionPromiseRef c of
        None \<Rightarrow> c
      | Some session \<Rightarrow>
          c\<lparr>effects := effects c @ [SessionClose session], sessionPromiseRef := None\<rparr>)"

definition stopTracks :: "LiveConvo \<Rightarrow> LiveConvo" where
  "stopTracks c =
     (case mediaStreamRef c of
        None \<Rightarrow> c
      | Some stream \<Rightarrow> c\<lparr>effects := effects c @ [TrackStop stream], mediaStreamRef := None\<rparr>)"

definition disconnectProcessor :: "LiveConvo \<Rightarrow> LiveConvo" where
  "disconnectProcessor c =
     (case scriptProcessorRef c of
        None \<Rightarrow> c
      | Some node \<Rightarrow> c\<lparr>effects := effects c @ [Disconnect node], scriptProcessorRef := None\<rparr>)"

definition disconnectSource :: "LiveConvo \<Rightarrow> LiveConvo" where
  "disconnectSource c =
     (case mediaStreamSourceRef c of
        None \<Rightarrow> c
      | Some node \<Rightarrow>
          c\<lparr>effects := effects c @ [Disconnect node], mediaStreamSourceRef := None\<rparr>)"

definition closeInput :: "LiveConvo \<Rightarrow> LiveConvo" where
  "closeInput c =
     (case inputAudioContextRef c of
        None \<Rightarrow> c
      | Some ctx \<Rightarrow>
          if state ctx \<noteq> closed
          then c\<lparr>effects := effects c @ [ContextClose (ctxId ctx)],
                  inputAudioContextRef := None\<rparr>
          else c)"

definition closeOutput :: "LiveConvo \<Rightarrow> LiveConvo" where
  "closeOutput c =
     (case outputAudioContextRef c of
        None \<Rightarrow> c
      | Some ctx \<Rightarrow>
          if state ctx \<noteq> closed
          then c\<lparr>effects := effects c @ map SourceStop (sources c) @ [ContextClose (ctxId ctx)],
                  sources := [],
                  outputAudioContextRef := None\<rparr>
          else c)"

definition stopConversation :: "LiveConvo \<Rightarrow> LiveConvo" where
  "stopConversation c =
     (closeOutput (closeInput (disconnectSource (disconnectProcessor
        (stopTracks (closeSession c))))))
       \<lparr>isListening := False, status := ''Conversation ended.''\<rparr>"

subsection \<open>\<open>startConversation\<close> (lines 134 to 257)\<close>

text \<open>
  The function is suspended at \<open>await getUserMedia\<close> (line 142), and other callbacks run
  before it goes on. It is two steps: \<open>startConversation\<close> is the part up to the
  \<open>await\<close>, and \<open>gotUserMedia\<close> is the rest, run when the request settles, with a
  stream or with a rejection. After the \<open>await\<close> the code checks nothing again. The
  stream, the two contexts and the session get fresh numbers. Without a suspended call
  there is nothing for \<open>gotUserMedia\<close> to resume.
\<close>

definition startConversation :: "LiveConvo \<Rightarrow> LiveConvo" where
  "startConversation c =
     (if isListening c then c
      else c\<lparr>isListening := True, status := ''Connecting...'', transcripts := [],
              effects := effects c @ [GetUserMedia],
              awaitingStream := Suc (awaitingStream c)\<rparr>)"

definition gotUserMedia :: "bool \<Rightarrow> LiveConvo \<Rightarrow> LiveConvo" where
  "gotUserMedia granted c =
     (case awaitingStream c of
        0 \<Rightarrow> c
      | Suc n \<Rightarrow>
          (let c1 = c\<lparr>awaitingStream := n\<rparr>
           in if \<not> granted
              then c1\<lparr>status := ''Failed to get microphone access.'', isListening := False\<rparr>
              else
                (let stream = fresh c1; session = stream + 3
                 in c1\<lparr>mediaStreamRef := Some stream,
                       inputAudioContextRef := Some (newAudioContext (stream + 1) 16000),
                       outputAudioContextRef := Some (newAudioContext (stream + 2) 24000),
                       sessionPromiseRef := Some session,
                       effects := effects c1 @ [Connect session],
                       fresh := stream + 4\<rparr>)))"

subsection \<open>The callbacks\<close>

text \<open>
  \<open>onopen\<close> (lines 165 to 195). The non-null assertion on the input context is a type
  annotation only: on \<open>null\<close> the call throws after the status has been set.
\<close>

definition onopen :: "LiveConvo \<Rightarrow> LiveConvo \<times> error option" where
  "onopen c =
     (let c1 = c\<lparr>status := ''Connected. You can start speaking now.''\<rparr>
      in case inputAudioContextRef c1 of
           None \<Rightarrow> (c1, Some TypeError)
         | Some ctx \<Rightarrow>
             (let source = fresh c1
              in (c1\<lparr>mediaStreamSourceRef := Some source,
                      scriptProcessorRef := Some (source + 1),
                      fresh := source + 2\<rparr>, None)))"

text \<open>\<open>onaudioprocess\<close> (lines 175 to 192): one frame of microphone samples.\<close>

definition onaudioprocess :: "Float32Array \<Rightarrow> LiveConvo \<Rightarrow> LiveConvo" where
  "onaudioprocess inputData c =
     (case sessionPromiseRef c of
        None \<Rightarrow> c
      | Some session \<Rightarrow>
          c\<lparr>effects := effects c @ [SendRealtimeInput session (pcmBlob inputData)]\<rparr>)"

text \<open>
  \<open>onmessage\<close>, lines 198 to 203. Appending an absent \<open>text\<close> appends the string
  \<open>undefined\<close>, as \<open>+=\<close> on strings does.
\<close>

definition textOf :: "Transcription \<Rightarrow> string" where
  "textOf t = (case t of None \<Rightarrow> ''undefined'' | Some s \<Rightarrow> s)"

definition appendTranscriptions :: "LiveServerMessage \<Rightarrow> LiveConvo \<Rightarrow> LiveConvo" where
  "appendTranscriptions message c =
     (let c1 = (case Option.bind (serverContent message) outputTranscription of
                  None \<Rightarrow> c
                | Some t \<Rightarrow>
                    c\<lparr>currentOutputTranscription := currentOutputTranscription c @ textOf t\<rparr>)
      in case Option.bind (serverContent message) inputTranscription of
           None \<Rightarrow> c1
         | Some t \<Rightarrow>
             c1\<lparr>currentInputTranscription := currentInputTranscription c1 @ textOf t\<rparr>)"

text \<open>Lines 205 to 217. A string is truthy when it is not empty.\<close>

definition isTurnComplete :: "LiveServerMessage \<Rightarrow> bool" where
  "isTurnComplete message =
     (case serverContent message of None \<Rightarrow> False | Some sc \<Rightarrow> turnComplete sc)"

definition completeTurn :: "LiveServerMessage \<Rightarrow> LiveConvo \<Rightarrow> LiveConvo" where
  "completeTurn message c =
     (if isTurnComplete message then
        (let fullInput = currentInputTranscription c;
             fullOutput = currentOutputTranscription c;
             newTranscripts =
               (if fullInput \<noteq> []
                then [[(''speaker'', JString ''user''), (''text'', JString fullInput)]]
                else [])
               @ (if fullOutput \<noteq> []
                  then [[(''speaker'', JString ''model''), (''text'', JString fullOutput)]]
                  else [])
         in c\<lparr>transcripts := transcripts c @ newTranscripts,
               currentInputTranscription := [],
               currentOutputTranscription := []\<rparr>)
      else c)"

text \<open>
  Line 219, \<open>message.serverContent?.modelTurn?.parts[0]?.inlineData.data\<close>: the chain
  stops with \<open>undefined\<close> at an absent \<open>serverContent\<close>, \<open>modelTurn\<close> or first part, and
  throws on absent \<open>parts\<close> or \<open>inlineData\<close>, which are read without \<open>?.\<close>.
\<close>

definition base64Audio :: "LiveServerMessage \<Rightarrow> error + string option" where
  "base64Audio message =
     (case serverContent message of
        None \<Rightarrow> Inr None
      | Some sc \<Rightarrow>
          (case modelTurn sc of
             None \<Rightarrow> Inr None
           | Some turn \<Rightarrow>
               (case parts turn of
                  None \<Rightarrow> Inl TypeError
                | Some [] \<Rightarrow> Inr None
                | Some (part # _) \<Rightarrow>
                    (case inlineData part of
                       None \<Rightarrow> Inl TypeError
                     | Some blob \<Rightarrow> Inr (data blob)))))"

text \<open>
  Lines 220 to 231, with the context's \<open>currentTime\<close> as an argument. The cursor is
  raised to the clock before the chunk is decoded; an exception of the decoding leaves
  it raised and nothing else done. The \<open>await\<close> is taken as one step with the rest.
\<close>

definition enqueue :: "rat \<Rightarrow> string option \<Rightarrow> LiveConvo \<Rightarrow> LiveConvo \<times> error option" where
  "enqueue currentTime audio c =
     (case audio of
        None \<Rightarrow> (c, None)
      | Some base64 \<Rightarrow>
          if base64 = [] then (c, None)
          else
            (case outputAudioContextRef c of
               None \<Rightarrow> (c, Some TypeError)
             | Some ctx \<Rightarrow>
                 (let c1 = c\<lparr>nextStartTime := max (nextStartTime c) currentTime\<rparr>
                  in case decodeChunk ctx base64 of
                       Inl e \<Rightarrow> (c1, Some e)
                     | Inr audioBuffer \<Rightarrow>
                         (let sourceNode = fresh c1
                          in (c1\<lparr>effects := effects c1 @
                                     [SourceStart sourceNode (nextStartTime c1)
                                        (duration audioBuffer)],
                                  nextStartTime := nextStartTime c1 + duration audioBuffer,
                                  sources := sources c1 @ [sourceNode],
                                  fresh := Suc sourceNode\<rparr>, None)))))"

text \<open>Lines 233 to 239.\<close>

definition isInterrupted :: "LiveServerMessage \<Rightarrow> bool" where
  "isInterrupted message =
     (case serverContent message of None \<Rightarrow> False | Some sc \<Rightarrow> interrupted sc)"

definition interrupt :: "LiveServerMessage \<Rightarrow> LiveConvo \<Rightarrow> LiveConvo" where
  "interrupt message c =
     (if isInterrupted message
      then c\<lparr>effects := effects c @ map SourceStop (sources c),
              sources := [],
              nextStartTime := 0\<rparr>
      else c)"

text \<open>
  The handler as a whole. It has no \<open>try\<close>: an exception ends it where it is thrown,
  with the state as it is then, and is returned beside the state.
\<close>

definition onmessage :: "rat \<Rightarrow> LiveServerMessage \<Rightarrow> LiveConvo \<Rightarrow> LiveConvo \<times> error option" where
  "onmessage currentTime message c =
     (let c1 = completeTurn message (appendTranscriptions message c)
      in case base64Audio message of
           Inl e \<Rightarrow> (c1, Some e)
         | Inr audio \<Rightarrow>
             (case enqueue currentTime audio c1 of
                (c2, Some e) \<Rightarrow> (c2, Some e)
              | (c2, None) \<Rightarrow> (interrupt message c2, None)))"

text \<open>The listener of line 227, run when a source node has ended.\<close>

definition onended :: "nat \<Rightarrow> LiveConvo \<Rightarrow> LiveConvo" where
  "onended sourceNode c = c\<lparr>sources := removeAll sourceNode (sources c)\<rparr>"

text \<open>\<open>onerror\<close> (lines 241 to 245) and \<open>onclose\<close> (lines 246 to 249).\<close>

definition onerror :: "string \<Rightarrow> LiveConvo \<Rightarrow> LiveConvo" where
  "onerror msg c =
     stopConversation (c\<lparr>status := ''Error: '' @ msg @ ''. Please try again.''\<rparr>)"

definition onclose :: "LiveConvo \<Rightarrow> LiveConvo" where
  "onclose c = c\<lparr>status := ''Connection closed.'', isListening := False\<rparr>"

subsection \<open>Message streams\<close>

text \<open>
  Messages are handled one at a time, each with the clock value of its handling. The
  caller does not look at the handler's promise, so an exception does not stop the
  stream; the exceptions are collected.
\<close>

fun deliver :: "(rat \<times> LiveServerMessage) list \<Rightarrow> LiveConvo \<Rightarrow> LiveConvo \<times> error list" where
  "deliver [] c = (c, [])"
| "deliver ((currentTime, message) # rest) c =
     (case onmessage currentTime message c of
        (c1, e) \<Rightarrow>
          (case deliver rest c1 of
             (c2, es) \<Rightarrow> (c2, (case e of None \<Rightarrow> [] | Some x \<Rightarrow> [x]) @ es)))"

text \<open>The start times in a trace, and the duration of the chunk a message carries.\<close>

fun startTimes :: "effect list \<Rightarrow> rat list" where
  "startTimes [] = []"
| "startTimes (SourceStart n w d # es) = w # startTimes es"
| "startTimes (_ # es) = startTimes es"

definition chunkDuration :: "AudioContext \<Rightarrow> LiveServerMessage \<Rightarrow> rat option" where
  "chunkDuration ctx message =
     (case base64Audio message of
        Inr (Some base64) \<Rightarrow>
          if base64 = [] then None
          else (case decodeChunk ctx base64 of
                  Inl e \<Rightarrow> None
                | Inr audioBuffer \<Rightarrow> Some (duration audioBuffer))
      | _ \<Rightarrow> None)"

text \<open>Messages with one field set, for the examples.\<close>

definition noContent :: LiveServerContent where
  "noContent =
     \<lparr>modelTurn = None, turnComplete = False, interrupted = False,
      inputTranscription = None, outputTranscription = None\<rparr>"

definition audioMessage :: "string \<Rightarrow> LiveServerMessage" where
  "audioMessage base64 =
     \<lparr>serverContent = Some (noContent\<lparr>modelTurn :=
        Some \<lparr>parts = Some [\<lparr>inlineData =
          Some \<lparr>data = Some base64, mimeType = Some ''audio/pcm;rate=24000''\<rparr>\<rparr>]\<rparr>\<rparr>)\<rparr>"

definition userFragment :: "string \<Rightarrow> LiveServerMessage" where
  "userFragment t = \<lparr>serverContent = Some (noContent\<lparr>inputTranscription := Some (Some t)\<rparr>)\<rparr>"

definition modelFragment :: "string \<Rightarrow> LiveServerMessage" where
  "modelFragment t = \<lparr>serverContent = Some (noContent\<lparr>outputTranscription := Some (Some t)\<rparr>)\<rparr>"

definition turnCompleteMessage :: LiveServerMessage where
  "turnCompleteMessage = \<lparr>serverContent = Some (noContent\<lparr>turnComplete := True\<rparr>)\<rparr>"

definition interruptedMessage :: LiveServerMessage where
  "interruptedMessage = \<lparr>serverContent = Some (noContent\<lparr>interrupted := True\<rparr>)\<rparr>"

subsection \<open>Speakers and fragments\<close>

text \<open>
  A transcription fragment of the user's speech is an \<open>inputTranscription\<close>, one of the
  model's speech an \<open>outputTranscription\<close>. \<open>said\<close> is what a speaker's fragments spell,
  in the order they arrive.
\<close>

datatype speaker = User | Model

definition fragment :: "speaker \<Rightarrow> string \<Rightarrow> LiveServerMessage" where
  "fragment sp t = (case sp of User \<Rightarrow> userFragment t | Model \<Rightarrow> modelFragment t)"

definition fragments ::
  "(rat \<times> speaker \<times> string) list \<Rightarrow> (rat \<times> LiveServerMessage) list" where
  "fragments fs = map (\<lambda>(now, s, t). (now, fragment s t)) fs"

definition said :: "speaker \<Rightarrow> (rat \<times> speaker \<times> string) list \<Rightarrow> string" where
  "said sp fs = concat (map (\<lambda>(now, s, t). if s = sp then t else []) fs)"

subsection \<open>The cursor rule\<close>

text \<open>
  The start times that the rule of the specification gives for chunks enqueued at the
  clock values \<open>now\<close> with the durations \<open>d\<close>: a chunk starts at the later of cursor
  and clock, and the cursor moves to its end.
\<close>

fun gapless :: "rat \<Rightarrow> (rat \<times> rat) list \<Rightarrow> rat list" where
  "gapless cursor [] = []"
| "gapless cursor ((now, d) # rest) = max cursor now # gapless (max cursor now + d) rest"

subsection \<open>States for the examples\<close>

text \<open>
  The component after a start with the microphone granted, after the transport has
  opened as well, and after a stop that came while the first start was waiting for the
  microphone.
\<close>

definition listening :: LiveConvo where
  "listening = gotUserMedia True (startConversation initial)"

definition active :: LiveConvo where
  "active = fst (onopen listening)"

definition raced :: LiveConvo where
  "raced = gotUserMedia True (stopConversation (startConversation initial))"

subsection \<open>The sextets of an encoding\<close>

text \<open>
  The values behind the characters that \<open>btoa\<close> writes before the padding. The proofs
  about \<open>btoa\<close> and \<open>atob\<close> go through them.
\<close>

fun enc :: "string \<Rightarrow> nat list" where
  "enc [] = []"
| "enc [a] = (let n = (of_char a :: nat) in [n div 4, (n mod 4) * 16])"
| "enc [a, b] =
     (let n = (of_char a :: nat); m = (of_char b :: nat) in
      [n div 4, (n mod 4) * 16 + m div 16, (m mod 16) * 4])"
| "enc (a # b # c # rest) =
     (let n = (of_char a :: nat); m = (of_char b :: nat); k = (of_char c :: nat) in
      [n div 4, (n mod 4) * 16 + m div 16, (m mod 16) * 4 + k div 64, k mod 64] @ enc rest)"

section \<open>Base64 is lossless\<close>

subsection \<open>The alphabet\<close>

lemma b64val_b64char: "n < 64 \<Longrightarrow> b64val (b64char n) = Some n"
  unfolding b64val_def b64char_def Let_def
  by (auto simp: of_char_of)

lemma b64char_not_pad: "n < 64 \<Longrightarrow> b64char n \<noteq> CHR ''=''"
  using b64val_b64char [of n] by (auto simp: b64val_def)

lemma b64char_not_ws: "n < 64 \<Longrightarrow> \<not> isAsciiWhitespace (b64char n)"
  using b64val_b64char [of n] by (auto simp: b64val_def isAsciiWhitespace_def Let_def split: if_splits)

lemma pad_not_ws: "\<not> isAsciiWhitespace (CHR ''='')"
  by (simp add: isAsciiWhitespace_def)


subsection \<open>\<open>atob\<close> inverts \<open>btoa\<close>\<close>

lemma btoa_enc:
  "btoa s = map b64char (enc s) @ replicate ((3 - length s mod 3) mod 3) (CHR ''='')"
proof (induction s rule: btoa.induct)
  case (4 a b c rest)
  have "(3 - length (a # b # c # rest) mod 3) mod 3 = (3 - length rest mod 3) mod 3"
    by simp
  with 4 show ?case by (simp add: Let_def)
qed (simp_all add: Let_def numeral_2_eq_2)

lemma of_char_lt: "(of_char (c :: char) :: nat) < 256"
  by simp


lemma sextet_bounds:
  fixes n m k :: nat
  assumes "n < 256" "m < 256" "k < 256"
  shows "n div 4 < 64" "n mod 4 * 16 < 64" "n mod 4 * 16 + m div 16 < 64"
    "m mod 16 * 4 < 64" "m mod 16 * 4 + k div 64 < 64" "k mod 64 < 64"
  using assms by arith+

lemma enc_bound: "\<forall>v \<in> set (enc s). v < 64"
proof (induction s rule: enc.induct)
  case (2 a)
  show ?case
    using sextet_bounds [of "of_char a" 0 0] by (simp add: Let_def)
next
  case (3 a b)
  show ?case
    using sextet_bounds [of "of_char a" "of_char b" 0] by (simp add: Let_def)
next
  case (4 a b c rest)
  then show ?case
    using sextet_bounds [of "of_char a" "of_char b" "of_char c"] by (simp add: Let_def)
qed simp

lemma length_enc: "length (enc s) = (4 * length s + 2) div 3"
  by (induction s rule: enc.induct) (simp_all add: Let_def)

lemma sextets_map: "\<forall>v \<in> set vs. v < 64 \<Longrightarrow> sextets (map b64char vs) = Some vs"
  by (induction vs) (simp_all add: b64val_b64char)

lemma regroup1': "(n::nat) div 4 * 4 + (n mod 4 * 16) div 16 = n"
  by simp
lemma regroup1: "(n::nat) div 4 * 4 + (n mod 4 * 16 + m div 16) div 16 = n" if "m < 256"
proof -
  have "m div 16 < 16" using that by simp
  then  have "(n mod 4 * 16 + m div 16) div 16 = n mod 4" by simp
  then show ?thesis by simp
qed
lemma regroup3: "((m::nat) mod 16 * 4 + k div 64) mod 4 * 64 + k mod 64 = k" if "k < 256"
proof -
  have "k div 64 < 4" using that by simp
  then  have "(m mod 16 * 4 + k div 64) mod 4 = k div 64" by simp
  then show ?thesis by simp
qed
lemma regroup2: "((n::nat) mod 4 * 16 + m div 16) mod 16 * 16 + (m mod 16 * 4 + k div 64) div 4 = m"
  if "m < 256" "k < 256"
proof -
  have "m div 16 < 16" "k div 64 < 4" using that by simp_all
  then  have "(n mod 4 * 16 + m div 16) mod 16 = m div 16" "(m mod 16 * 4 + k div 64) div 4 = m mod 16" by simp_all
  then show ?thesis by simp
qed
lemma regroup2': "((n::nat) mod 4 * 16 + m div 16) mod 16 * 16 + (m mod 16 * 4) div 4 = m"
  if "m < 256"
  using regroup2 [of m 0 n] that by simp
lemma unpack_enc: "unpack (enc s) = s"
proof (induction s rule: enc.induct)
  case (4 a b c rest)
  have b: "(of_char a :: nat) < 256" "(of_char b :: nat) < 256" "(of_char c :: nat) < 256" by simp_all
  show ?case using 4
    by (simp only: enc.simps Let_def unpack.simps append.simps regroup1 [OF b(2)]
        regroup2 [OF b(2) b(3)] regroup3 [OF b(3)] char_of_char)
next
  case (3 a b)
  have b: "(of_char a :: nat) < 256" "(of_char b :: nat) < 256" by simp_all
  show ?case
    by (simp only: enc.simps Let_def unpack.simps append.simps regroup1 [OF b(2)]
        regroup2' [OF b(2)] char_of_char)
next
  case (2 a)
  show ?case by (simp only: enc.simps Let_def unpack.simps regroup1' char_of_char)
qed simp

lemma enc_last: "enc s \<noteq> [] \<Longrightarrow> b64char (last (enc s)) \<noteq> CHR ''=''"
  using enc_bound [of s] by (simp add: b64char_not_pad)

lemma removePadding_pad:
  assumes "length (xs @ replicate p (CHR ''='')) mod 4 = 0" "p \<le> 2"
    and "xs \<noteq> [] \<Longrightarrow> last xs \<noteq> CHR ''=''"
  shows "removePadding (xs @ replicate p (CHR ''='')) = xs"
proof (cases "xs = []")
  case True
  with assms(1,2) have "p = 0" by (cases p) auto
  with True show ?thesis by (simp add: removePadding_def)
next
  case False
  with assms(3) have nl: "last xs \<noteq> CHR ''=''" by simp
  consider "p = 0" | "p = 1" | "p = 2" using assms(2) by arith
  then show ?thesis
  proof cases
    case 1
    with assms(1) False nl show ?thesis by (simp add: removePadding_def)
  next
    case 2
    with assms(1) False nl show ?thesis by (simp add: removePadding_def butlast_append)
  next
    case 3
    then have r: "replicate p (CHR ''='') = [CHR ''='', CHR ''='']" by (simp add: numeral_2_eq_2)
    from assms(1) False nl show ?thesis unfolding r by (simp add: removePadding_def butlast_append)
  qed
qed

lemma btoa_no_ws: "filter (\<lambda>c. \<not> isAsciiWhitespace c) (btoa s) = btoa s"
  unfolding btoa_enc using enc_bound [of s]
  by (auto simp: filter_id_conv b64char_not_ws pad_not_ws)

lemma length_btoa: "length (btoa s) mod 4 = 0"
  by (induction s rule: btoa.induct) (simp_all add: Let_def)

lemma length_enc_mod: "length (enc s) mod 4 \<noteq> 1"
  by (induction s rule: enc.induct) (simp_all add: Let_def)

lemma atob_btoa: "atob (btoa s) = Inr s"
proof -
  let ?p = "(3 - length s mod 3) mod 3"
  have p: "?p \<le> 2" by arith
  have l: "length (map b64char (enc s) @ replicate ?p (CHR ''='')) mod 4 = 0"
    using length_btoa [of s] by (simp only: btoa_enc)
  have nl: "map b64char (enc s) \<noteq> [] \<Longrightarrow> last (map b64char (enc s)) \<noteq> CHR ''=''"
    using enc_last [of s] by (simp add: last_map)
  have "removePadding (btoa s) = map b64char (enc s)"
    unfolding btoa_enc by (rule removePadding_pad [OF l p nl])
  then show ?thesis
    using length_enc_mod [of s]
    by (simp add: atob_def btoa_no_ws sextets_map enc_bound unpack_enc)
qed


subsection \<open>\<open>decode\<close> inverts \<open>encode\<close>\<close>

lemma decode_encode: "decode (encode b) = Inr b"
proof -
  have "map (\<lambda>c. word_of_nat (of_char c)) (map (\<lambda>b. char_of (unat b)) b) = b" (is "?l = b")
  proof -
    have "(word_of_nat (of_char (char_of (unat x) :: char)) :: 8 word) = x" for x :: "8 word"
    proof -
      have "unat x < 2 ^ LENGTH(8)" by (rule unsigned_less)
      then have "unat x < 256" by simp
      then show ?thesis by (simp add: of_char_of)
    qed
    then show ?thesis by (simp add: map_idI)
  qed
  then show ?thesis by (simp add: decode_def encode_def atob_btoa)
qed

section \<open>The sample codec\<close>

subsection \<open>The two views of a buffer\<close>

lemma word16_bytes:
  "push_bit 8 (ucast (ucast (drop_bit 8 w) :: 8 word)) OR ucast (ucast w :: 8 word) = (w :: 16 word)"
  by (rule bit_word_eqI) (auto simp add: bit_simps)

lemma int16Pairs_bytes: "int16Pairs (Uint8Array_of ws) = ws"
  by (induction ws) (simp_all add: Uint8Array_of_def bytesOfInt16_def word16_bytes)

lemma length_bytes: "length (Uint8Array_of ws) = 2 * length ws"
  by (induction ws) (simp_all add: Uint8Array_of_def bytesOfInt16_def)

lemma Int16Array_of_bytes: "Int16Array_of (Uint8Array_of ws) = Inr ws"
  by (simp add: Int16Array_of_def length_bytes int16Pairs_bytes)

subsection \<open>Quantisation\<close>

lemma trunc_close: "\<bar>of_int (trunc y) - y\<bar> \<le> 1"
proof (cases "0 \<le> y")
  case True
  then have t: "trunc y = \<lfloor>y\<rfloor>" by (simp add: trunc_def)
  have "of_int \<lfloor>y\<rfloor> \<le> y" "y < of_int \<lfloor>y\<rfloor> + 1" by linarith+
  then show ?thesis unfolding t by linarith
next
  case False
  then have t: "trunc y = \<lceil>y\<rceil>" by (simp add: trunc_def)
  have "y \<le> of_int \<lceil>y\<rceil>" "of_int \<lceil>y\<rceil> < y + 1" by linarith+
  then show ?thesis unfolding t by linarith
qed

lemma trunc_range:
  assumes "- 32768 \<le> y" "y < 32768"
  shows "- 32768 \<le> trunc y" "trunc y < 32768"
proof -
  show "- 32768 \<le> trunc y"
    using assms by (auto simp: trunc_def le_floor_iff le_ceiling_iff; linarith)
  show "trunc y < 32768"
    using assms by (auto simp: trunc_def floor_less_iff ceiling_less_iff; linarith)
qed

lemma sint_toInt16:
  assumes "- 32768 \<le> y" "y < 32768"
  shows "sint (toInt16 y) = trunc y"
proof -
  have "signed_take_bit 15 (trunc y) = trunc y"
    using trunc_range [OF assms] by (intro signed_take_bit_int_eq_self) simp_all
  then show ?thesis
    by (simp add: toInt16_def sint_sbintrunc')
qed


lemma decodeAudioData_mono:
  assumes "\<not> refuses ctx 1 (length ws) rate"
  shows "decodeAudioData (Uint8Array_of ws) ctx rate 1 =
           Inr \<lparr>channelData = [map (\<lambda>w. of_int (sint w) / 32768) ws], bufferRate = rate\<rparr>"
proof -
  have "map (\<lambda>i. rat_of_int (sint (ws ! i)) / 32768) [0..<length ws] = map (\<lambda>w. of_int (sint w) / 32768) ws"
    by (rule nth_equalityI) simp_all
  with assms show ?thesis
    by (simp add: decodeAudioData_def Int16Array_of_bytes createBuffer_def)
qed

lemma sample_close:
  assumes "- 1 \<le> s" "s < 1"
  shows "\<bar>of_int (sint (toInt16 (s * 32768))) / 32768 - s\<bar> \<le> 1 / 32768"
proof -
  from assms have r: "- 32768 \<le> s * 32768" "s * 32768 < 32768" by simp_all
  have "\<bar>of_int (trunc (s * 32768)) - s * 32768\<bar> \<le> 1" by (rule trunc_close)
  then have "\<bar>of_int (trunc (s * 32768)) / 32768 - s\<bar> \<le> 1 / 32768"
    by (simp add: abs_le_iff field_simps)
  then show ?thesis by (simp only: sint_toInt16 [OF r])
qed


text \<open>
  C10. For every byte array, \<open>decode\<close> of its \<open>encode\<close> is the array itself, and reading
  the bytes of 16-bit samples back as 16-bit samples gives the samples: the transport
  coding loses nothing, which leaves the quantisation as the lossy step.
\<close>

theorem transport_coding_lossless:
  "decode (encode b) = Inr b \<and> Int16Array_of (Uint8Array_of ws) = Inr ws"
  by (simp add: decode_encode Int16Array_of_bytes)

theorem transport_coding_lossless_witness:
  "decode (encode [0, 255, 16]) = Inr [0, 255, 16]
     \<and> Int16Array_of (Uint8Array_of [1, - 1]) = Inr [1, - 1]"
  by (rule transport_coding_lossless)

text \<open>
  C1. For samples in \<open>[-1, 1)\<close>, the chunk that the capture side builds (quantisation,
  bytes, base64) decodes, in a context that allocates the buffer asked for, to one
  channel of the same length whose samples are within \<open>1 / 32768\<close> of the originals.
\<close>

theorem codec_round_trip:
  assumes "\<forall>s \<in> set x. - 1 \<le> s \<and> s < 1"
    and "\<not> refuses ctx 1 (length x) 24000"
  shows "\<exists>base64 y. data (pcmBlob x) = Some base64
           \<and> decodeChunk ctx base64 = Inr \<lparr>channelData = [y], bufferRate = 24000\<rparr>
           \<and> length y = length x
           \<and> (\<forall>i < length x. \<bar>y ! i - x ! i\<bar> \<le> 1 / 32768)"
proof -
  let ?ws = "map (\<lambda>s. toInt16 (s * 32768)) x"
  let ?y = "map (\<lambda>w. of_int (sint w) / 32768) ?ws"
  have 0: "data (pcmBlob x) = Some (encode (Uint8Array_of ?ws))"
    by (simp add: pcmBlob_def)
  have "decodeChunk ctx (encode (Uint8Array_of ?ws)) = decodeAudioData (Uint8Array_of ?ws) ctx 24000 1"
    by (simp add: decodeChunk_def decode_encode)
  also have "\<dots> = Inr \<lparr>channelData = [?y], bufferRate = 24000\<rparr>"
    using assms(2) by (intro decodeAudioData_mono) simp
  finally have 1: "decodeChunk ctx (encode (Uint8Array_of ?ws))
                     = Inr \<lparr>channelData = [?y], bufferRate = 24000\<rparr>" .
  have 2: "length ?y = length x" by simp
  have 3: "\<bar>?y ! i - x ! i\<bar> \<le> 1 / 32768" if "i < length x" for i
  proof -
    from that assms(1) have "- 1 \<le> x ! i" "x ! i < 1" by simp_all
    from sample_close [OF this] that show ?thesis by simp
  qed
  from 0 1 2 3 show ?thesis by blast
qed

theorem codec_round_trip_witness:
  "\<exists>base64 y. data (pcmBlob [1 / 2, - 1, 1 / 3]) = Some base64
     \<and> decodeChunk (newAudioContext 0 24000) base64
          = Inr \<lparr>channelData = [y], bufferRate = 24000\<rparr>
     \<and> length y = length [1 / 2, - 1, 1 / 3 :: rat]
     \<and> (\<forall>i < length [1 / 2, - 1, 1 / 3 :: rat].
           \<bar>y ! i - [1 / 2, - 1, 1 / 3] ! i\<bar> \<le> 1 / 32768)"
proof -
  have a: "\<forall>s \<in> set [1 / 2, - 1, 1 / 3 :: rat]. - 1 \<le> s \<and> s < 1" by simp
  have b: "\<not> refuses (newAudioContext 0 24000) 1 (length [1 / 2, - 1, 1 / 3 :: rat]) 24000"
    by (simp add: newAudioContext_def webAudioRefuses_def)
  from codec_round_trip [OF a b] show ?thesis .
qed

section \<open>Starting\<close>

lemma start_listening: "isListening c \<Longrightarrow> startConversation c = c"
  by (simp add: startConversation_def)

section \<open>Tearing down\<close>

subsection \<open>What each block of \<open>stopConversation\<close> leaves alone\<close>

lemma closeSession_keeps [simp]:
  "isListening (closeSession c) = isListening c"
  "status (closeSession c) = status c"
  "transcripts (closeSession c) = transcripts c"
  "mediaStreamRef (closeSession c) = mediaStreamRef c"
  "inputAudioContextRef (closeSession c) = inputAudioContextRef c"
  "outputAudioContextRef (closeSession c) = outputAudioContextRef c"
  "scriptProcessorRef (closeSession c) = scriptProcessorRef c"
  "mediaStreamSourceRef (closeSession c) = mediaStreamSourceRef c"
  "currentInputTranscription (closeSession c) = currentInputTranscription c"
  "currentOutputTranscription (closeSession c) = currentOutputTranscription c"
  "nextStartTime (closeSession c) = nextStartTime c"
  "sources (closeSession c) = sources c"
  "fresh (closeSession c) = fresh c"
  "awaitingStream (closeSession c) = awaitingStream c"
  by (simp_all add: closeSession_def split: option.splits)

lemma stopTracks_keeps [simp]:
  "isListening (stopTracks c) = isListening c"
  "status (stopTracks c) = status c"
  "transcripts (stopTracks c) = transcripts c"
  "sessionPromiseRef (stopTracks c) = sessionPromiseRef c"
  "inputAudioContextRef (stopTracks c) = inputAudioContextRef c"
  "outputAudioContextRef (stopTracks c) = outputAudioContextRef c"
  "scriptProcessorRef (stopTracks c) = scriptProcessorRef c"
  "mediaStreamSourceRef (stopTracks c) = mediaStreamSourceRef c"
  "currentInputTranscription (stopTracks c) = currentInputTranscription c"
  "currentOutputTranscription (stopTracks c) = currentOutputTranscription c"
  "nextStartTime (stopTracks c) = nextStartTime c"
  "sources (stopTracks c) = sources c"
  "fresh (stopTracks c) = fresh c"
  "awaitingStream (stopTracks c) = awaitingStream c"
  by (simp_all add: stopTracks_def split: option.splits)

lemma disconnectProcessor_keeps [simp]:
  "isListening (disconnectProcessor c) = isListening c"
  "status (disconnectProcessor c) = status c"
  "transcripts (disconnectProcessor c) = transcripts c"
  "sessionPromiseRef (disconnectProcessor c) = sessionPromiseRef c"
  "mediaStreamRef (disconnectProcessor c) = mediaStreamRef c"
  "inputAudioContextRef (disconnectProcessor c) = inputAudioContextRef c"
  "outputAudioContextRef (disconnectProcessor c) = outputAudioContextRef c"
  "mediaStreamSourceRef (disconnectProcessor c) = mediaStreamSourceRef c"
  "currentInputTranscription (disconnectProcessor c) = currentInputTranscription c"
  "currentOutputTranscription (disconnectProcessor c) = currentOutputTranscription c"
  "nextStartTime (disconnectProcessor c) = nextStartTime c"
  "sources (disconnectProcessor c) = sources c"
  "fresh (disconnectProcessor c) = fresh c"
  "awaitingStream (disconnectProcessor c) = awaitingStream c"
  by (simp_all add: disconnectProcessor_def split: option.splits)

lemma disconnectSource_keeps [simp]:
  "isListening (disconnectSource c) = isListening c"
  "status (disconnectSource c) = status c"
  "transcripts (disconnectSource c) = transcripts c"
  "sessionPromiseRef (disconnectSource c) = sessionPromiseRef c"
  "mediaStreamRef (disconnectSource c) = mediaStreamRef c"
  "inputAudioContextRef (disconnectSource c) = inputAudioContextRef c"
  "outputAudioContextRef (disconnectSource c) = outputAudioContextRef c"
  "scriptProcessorRef (disconnectSource c) = scriptProcessorRef c"
  "currentInputTranscription (disconnectSource c) = currentInputTranscription c"
  "currentOutputTranscription (disconnectSource c) = currentOutputTranscription c"
  "nextStartTime (disconnectSource c) = nextStartTime c"
  "sources (disconnectSource c) = sources c"
  "fresh (disconnectSource c) = fresh c"
  "awaitingStream (disconnectSource c) = awaitingStream c"
  by (simp_all add: disconnectSource_def split: option.splits)

lemma closeInput_keeps [simp]:
  "isListening (closeInput c) = isListening c"
  "status (closeInput c) = status c"
  "transcripts (closeInput c) = transcripts c"
  "sessionPromiseRef (closeInput c) = sessionPromiseRef c"
  "mediaStreamRef (closeInput c) = mediaStreamRef c"
  "outputAudioContextRef (closeInput c) = outputAudioContextRef c"
  "scriptProcessorRef (closeInput c) = scriptProcessorRef c"
  "mediaStreamSourceRef (closeInput c) = mediaStreamSourceRef c"
  "currentInputTranscription (closeInput c) = currentInputTranscription c"
  "currentOutputTranscription (closeInput c) = currentOutputTranscription c"
  "nextStartTime (closeInput c) = nextStartTime c"
  "sources (closeInput c) = sources c"
  "fresh (closeInput c) = fresh c"
  "awaitingStream (closeInput c) = awaitingStream c"
  by (simp_all add: closeInput_def split: option.splits)

lemma closeOutput_keeps [simp]:
  "isListening (closeOutput c) = isListening c"
  "status (closeOutput c) = status c"
  "transcripts (closeOutput c) = transcripts c"
  "sessionPromiseRef (closeOutput c) = sessionPromiseRef c"
  "mediaStreamRef (closeOutput c) = mediaStreamRef c"
  "inputAudioContextRef (closeOutput c) = inputAudioContextRef c"
  "scriptProcessorRef (closeOutput c) = scriptProcessorRef c"
  "mediaStreamSourceRef (closeOutput c) = mediaStreamSourceRef c"
  "currentInputTranscription (closeOutput c) = currentInputTranscription c"
  "currentOutputTranscription (closeOutput c) = currentOutputTranscription c"
  "nextStartTime (closeOutput c) = nextStartTime c"
  "fresh (closeOutput c) = fresh c"
  "awaitingStream (closeOutput c) = awaitingStream c"
  by (simp_all add: closeOutput_def split: option.splits)

subsection \<open>What each block clears\<close>

lemma closeSession_ref [simp]: "sessionPromiseRef (closeSession c) = None"
  by (simp add: closeSession_def split: option.splits)

lemma stopTracks_ref [simp]: "mediaStreamRef (stopTracks c) = None"
  by (simp add: stopTracks_def split: option.splits)

lemma disconnectProcessor_ref [simp]: "scriptProcessorRef (disconnectProcessor c) = None"
  by (simp add: disconnectProcessor_def split: option.splits)

lemma disconnectSource_ref [simp]: "mediaStreamSourceRef (disconnectSource c) = None"
  by (simp add: disconnectSource_def split: option.splits)









subsection \<open>The whole function\<close>





lemma closeSession_effects:
  "effects (closeSession c) =
     effects c @ (case sessionPromiseRef c of None \<Rightarrow> [] | Some s \<Rightarrow> [SessionClose s])"
  by (simp add: closeSession_def split: option.splits)

lemma stopTracks_effects:
  "effects (stopTracks c) =
     effects c @ (case mediaStreamRef c of None \<Rightarrow> [] | Some m \<Rightarrow> [TrackStop m])"
  by (simp add: stopTracks_def split: option.splits)

lemma disconnectProcessor_effects:
  "effects (disconnectProcessor c) =
     effects c @ (case scriptProcessorRef c of None \<Rightarrow> [] | Some p \<Rightarrow> [Disconnect p])"
  by (simp add: disconnectProcessor_def split: option.splits)

lemma disconnectSource_effects:
  "effects (disconnectSource c) =
     effects c @ (case mediaStreamSourceRef c of None \<Rightarrow> [] | Some q \<Rightarrow> [Disconnect q])"
  by (simp add: disconnectSource_def split: option.splits)

lemma closeInput_effects:
  "effects (closeInput c) =
     effects c @ (case inputAudioContextRef c of
                    None \<Rightarrow> []
                  | Some ctx \<Rightarrow> if state ctx \<noteq> closed then [ContextClose (ctxId ctx)] else [])"
  by (simp add: closeInput_def split: option.splits)

lemma closeOutput_effects:
  "effects (closeOutput c) =
     effects c @ (case outputAudioContextRef c of
                    None \<Rightarrow> []
                  | Some ctx \<Rightarrow>
                      if state ctx \<noteq> closed
                      then map SourceStop (sources c) @ [ContextClose (ctxId ctx)] else [])"
  by (simp add: closeOutput_def split: option.splits)

lemma stop_releases:
  "effects (stopConversation c) =
     effects c
       @ (case sessionPromiseRef c of None \<Rightarrow> [] | Some s \<Rightarrow> [SessionClose s])
       @ (case mediaStreamRef c of None \<Rightarrow> [] | Some m \<Rightarrow> [TrackStop m])
       @ (case scriptProcessorRef c of None \<Rightarrow> [] | Some p \<Rightarrow> [Disconnect p])
       @ (case mediaStreamSourceRef c of None \<Rightarrow> [] | Some q \<Rightarrow> [Disconnect q])
       @ (case inputAudioContextRef c of
            None \<Rightarrow> []
          | Some ctx \<Rightarrow> if state ctx \<noteq> closed then [ContextClose (ctxId ctx)] else [])
       @ (case outputAudioContextRef c of
            None \<Rightarrow> []
          | Some ctx \<Rightarrow>
              if state ctx \<noteq> closed
              then map SourceStop (sources c) @ [ContextClose (ctxId ctx)] else [])"
  by (simp add: stopConversation_def closeOutput_effects closeInput_effects
      disconnectSource_effects disconnectProcessor_effects stopTracks_effects
      closeSession_effects split: option.splits)

section \<open>The message handler\<close>

subsection \<open>What the parts of the handler leave alone\<close>

lemma appendTranscriptions_keeps [simp]:
  "isListening (appendTranscriptions message c) = isListening c"
  "status (appendTranscriptions message c) = status c"
  "transcripts (appendTranscriptions message c) = transcripts c"
  "sessionPromiseRef (appendTranscriptions message c) = sessionPromiseRef c"
  "mediaStreamRef (appendTranscriptions message c) = mediaStreamRef c"
  "inputAudioContextRef (appendTranscriptions message c) = inputAudioContextRef c"
  "outputAudioContextRef (appendTranscriptions message c) = outputAudioContextRef c"
  "scriptProcessorRef (appendTranscriptions message c) = scriptProcessorRef c"
  "mediaStreamSourceRef (appendTranscriptions message c) = mediaStreamSourceRef c"
  "nextStartTime (appendTranscriptions message c) = nextStartTime c"
  "sources (appendTranscriptions message c) = sources c"
  "effects (appendTranscriptions message c) = effects c"
  "fresh (appendTranscriptions message c) = fresh c"
  "awaitingStream (appendTranscriptions message c) = awaitingStream c"
  by (simp_all add: appendTranscriptions_def Let_def split: option.splits)

lemma completeTurn_keeps [simp]:
  "isListening (completeTurn message c) = isListening c"
  "status (completeTurn message c) = status c"
  "sessionPromiseRef (completeTurn message c) = sessionPromiseRef c"
  "mediaStreamRef (completeTurn message c) = mediaStreamRef c"
  "inputAudioContextRef (completeTurn message c) = inputAudioContextRef c"
  "outputAudioContextRef (completeTurn message c) = outputAudioContextRef c"
  "scriptProcessorRef (completeTurn message c) = scriptProcessorRef c"
  "mediaStreamSourceRef (completeTurn message c) = mediaStreamSourceRef c"
  "nextStartTime (completeTurn message c) = nextStartTime c"
  "sources (completeTurn message c) = sources c"
  "effects (completeTurn message c) = effects c"
  "fresh (completeTurn message c) = fresh c"
  "awaitingStream (completeTurn message c) = awaitingStream c"
  by (simp_all add: completeTurn_def Let_def split: option.splits)

lemma interrupt_keeps [simp]:
  "isListening (interrupt message c) = isListening c"
  "status (interrupt message c) = status c"
  "transcripts (interrupt message c) = transcripts c"
  "sessionPromiseRef (interrupt message c) = sessionPromiseRef c"
  "mediaStreamRef (interrupt message c) = mediaStreamRef c"
  "inputAudioContextRef (interrupt message c) = inputAudioContextRef c"
  "outputAudioContextRef (interrupt message c) = outputAudioContextRef c"
  "scriptProcessorRef (interrupt message c) = scriptProcessorRef c"
  "mediaStreamSourceRef (interrupt message c) = mediaStreamSourceRef c"
  "currentInputTranscription (interrupt message c) = currentInputTranscription c"
  "currentOutputTranscription (interrupt message c) = currentOutputTranscription c"
  "fresh (interrupt message c) = fresh c"
  "awaitingStream (interrupt message c) = awaitingStream c"
  by (simp_all add: interrupt_def split: option.splits)

subsection \<open>Scheduling a chunk\<close>

lemma duration_nonneg: "0 \<le> duration b"
  by (simp add: duration_def split: list.splits)

lemma chunkDuration_nonneg: "chunkDuration ctx m = Some d \<Longrightarrow> 0 \<le> d"
  by (auto simp: chunkDuration_def duration_nonneg split: sum.splits option.splits if_splits)

lemma chunkDuration_audio:
  assumes "chunkDuration ctx m = Some d"
  obtains b buf where "base64Audio m = Inr (Some b)" "b \<noteq> []" "decodeChunk ctx b = Inr buf"
    "duration buf = d"
  using assms by (auto simp: chunkDuration_def split: sum.splits option.splits if_splits)

lemma enqueue_ok:
  assumes "outputAudioContextRef c = Some ctx" "b \<noteq> []" "decodeChunk ctx b = Inr buf"
  shows "enqueue t (Some b) c =
           (c\<lparr>nextStartTime := max (nextStartTime c) t,
               effects := effects c @ [SourceStart (fresh c) (max (nextStartTime c) t) (duration buf)],
               nextStartTime := max (nextStartTime c) t + duration buf,
               sources := sources c @ [fresh c],
               fresh := Suc (fresh c)\<rparr>, None)"
  using assms by (simp add: enqueue_def Let_def)

lemma enqueue_fail:
  assumes "outputAudioContextRef c = Some ctx" "b \<noteq> []" "decodeChunk ctx b = Inl e"
  shows "enqueue t (Some b) c = (c\<lparr>nextStartTime := max (nextStartTime c) t\<rparr>, Some e)"
  using assms by (simp add: enqueue_def Let_def)

lemma enqueue_none: "enqueue t None c = (c, None)"
  by (simp add: enqueue_def)

lemma enqueue_cursor: "nextStartTime c \<le> nextStartTime (fst (enqueue t audio c))"
proof -
  have "nextStartTime c \<le> max (nextStartTime c) t + duration b" for b
    using duration_nonneg [of b] by (simp add: max_def)
  then show ?thesis
    by (simp add: enqueue_def Let_def split: option.splits sum.splits)
qed

lemma enqueue_sources: "set (sources c) \<subseteq> set (sources (fst (enqueue t audio c)))"
  by (auto simp: enqueue_def Let_def split: option.splits sum.splits)

lemma startTimes_append: "startTimes (xs @ ys) = startTimes xs @ startTimes ys"
  by (induction xs rule: startTimes.induct) simp_all

lemma startTimes_stops: "startTimes (map SourceStop ns) = []"
  by (induction ns) simp_all

lemma onmessage_audio:
  assumes "outputAudioContextRef c = Some ctx" "chunkDuration ctx m = Some d"
  shows "\<exists>c'. onmessage t m c = (c', None)
           \<and> startTimes (effects c') = startTimes (effects c) @ [max (nextStartTime c) t]
           \<and> nextStartTime c' = (if isInterrupted m then 0 else max (nextStartTime c) t + d)
           \<and> outputAudioContextRef c' = Some ctx"
proof -
  from assms(2) obtain b buf where b: "base64Audio m = Inr (Some b)" "b \<noteq> []"
    "decodeChunk ctx b = Inr buf" "duration buf = d"
    by (rule chunkDuration_audio)
  let ?c1 = "completeTurn m (appendTranscriptions m c)"
  have "outputAudioContextRef ?c1 = Some ctx" using assms(1) by simp
  from enqueue_ok [OF this b(2,3)] b(1,4) assms(1) show ?thesis
    by (simp add: onmessage_def Let_def interrupt_def startTimes_append startTimes_stops)
qed

lemma onmessage_no_audio:
  assumes "base64Audio m = Inr None"
  shows "onmessage t m c = (interrupt m (completeTurn m (appendTranscriptions m c)), None)"
  using assms by (simp add: onmessage_def Let_def enqueue_none)

lemma deliver_append:
  "deliver (xs @ ys) c =
     (case deliver xs c of (c1, es) \<Rightarrow> (case deliver ys c1 of (c2, fs) \<Rightarrow> (c2, es @ fs)))"
  by (induction xs arbitrary: c) (auto split: prod.splits)

subsection \<open>The code follows the cursor rule\<close>

lemma deliver_gapless:
  assumes "outputAudioContextRef c = Some ctx"
    and "list_all2 (\<lambda>x d. chunkDuration ctx (snd x) = Some d \<and> \<not> isInterrupted (snd x)) ms ds"
  shows "\<exists>c'. deliver ms c = (c', [])
           \<and> startTimes (effects c')
               = startTimes (effects c) @ gapless (nextStartTime c) (zip (map fst ms) ds)
           \<and> outputAudioContextRef c' = Some ctx
           \<and> nextStartTime c \<le> nextStartTime c'"
  using assms(2,1)
proof (induction ms ds arbitrary: c rule: list_all2_induct)
  case Nil
  then show ?case by simp
next
  case (Cons x ms d ds)
  obtain t m where x: "x = (t, m)" by (cases x)
  from Cons.hyps(1) x have d: "chunkDuration ctx m = Some d" "\<not> isInterrupted m" by simp_all
  from onmessage_audio [OF Cons.prems d(1), of t] d(2) obtain c1 where
    c1: "onmessage t m c = (c1, None)"
        "startTimes (effects c1) = startTimes (effects c) @ [max (nextStartTime c) t]"
        "nextStartTime c1 = max (nextStartTime c) t + d"
        "outputAudioContextRef c1 = Some ctx"
    by auto
  from Cons.IH [OF c1(4)] obtain c' where
    c': "deliver ms c1 = (c', [])"
        "startTimes (effects c')
           = startTimes (effects c1) @ gapless (nextStartTime c1) (zip (map fst ms) ds)"
        "outputAudioContextRef c' = Some ctx"
        "nextStartTime c1 \<le> nextStartTime c'"
    by auto
  have "nextStartTime c \<le> nextStartTime c1"
    using chunkDuration_nonneg [OF d(1)] c1(3) by (simp add: max_def)
  with c1 c' x show ?case by simp
qed

lemma gapless_length: "length (gapless cursor xs) = length xs"
  by (induction cursor xs rule: gapless.induct) simp_all

lemma gapless_clock: "i < length xs \<Longrightarrow> fst (xs ! i) \<le> gapless cursor xs ! i"
proof (induction cursor xs arbitrary: i rule: gapless.induct)
  case (2 cursor now d rest)
  then show ?case by (cases i) simp_all
qed simp

lemma gapless_first: "xs \<noteq> [] \<Longrightarrow> gapless cursor xs ! 0 = max cursor (fst (xs ! 0))"
  by (cases xs) auto

lemma gapless_step:
  "Suc i < length xs \<Longrightarrow>
     gapless cursor xs ! Suc i = max (gapless cursor xs ! i + snd (xs ! i)) (fst (xs ! Suc i))"
proof (induction cursor xs arbitrary: i rule: gapless.induct)
  case (2 cursor now d rest)
  show ?case
  proof (cases i)
    case 0
    with 2 show ?thesis by (cases rest) auto
  next
    case (Suc j)
    with 2 show ?thesis by simp
  qed
qed simp

subsection \<open>Interruption\<close>

lemma onmessage_interrupted:
  assumes "isInterrupted m" "onmessage t m c = (c', None)"
  shows "sources c' = []" "nextStartTime c' = 0"
    "\<forall>n \<in> set (sources c). SourceStop n \<in> set (effects c')"
proof -
  let ?c1 = "completeTurn m (appendTranscriptions m c)"
  from assms(2) obtain audio c2 where
    a: "base64Audio m = Inr audio" "enqueue t audio ?c1 = (c2, None)" "c' = interrupt m c2"
    by (auto simp: onmessage_def Let_def split: sum.splits prod.splits option.splits)
  from a(3) assms(1) show "sources c' = []" "nextStartTime c' = 0"
    by (simp_all add: interrupt_def)
  have "set (sources c) \<subseteq> set (sources c2)"
    using enqueue_sources [of ?c1 t audio] a(2) by simp
  with a(3) assms(1) show "\<forall>n \<in> set (sources c). SourceStop n \<in> set (effects c')"
    by (auto simp: interrupt_def)
qed

lemma enqueue_started:
  assumes "enqueue t audio c = (c2, None)"
  shows "(effects c2 = effects c \<and> sources c2 = sources c)
           \<or> (\<exists>w d. effects c2 = effects c @ [SourceStart (fresh c) w d]
                  \<and> sources c2 = sources c @ [fresh c])"
  using assms by (auto simp: enqueue_def Let_def split: option.splits sum.splits if_splits)

lemma onmessage_interrupted_new:
  assumes "isInterrupted m" "onmessage t m c = (c', None)"
  shows "\<forall>n w d. SourceStart n w d \<in> set (effects c') \<longrightarrow>
           SourceStart n w d \<in> set (effects c) \<or> SourceStop n \<in> set (effects c')"
proof -
  let ?c1 = "completeTurn m (appendTranscriptions m c)"
  from assms(2) obtain audio c2 where
    a: "base64Audio m = Inr audio" "enqueue t audio ?c1 = (c2, None)" "c' = interrupt m c2"
    by (auto simp: onmessage_def Let_def split: sum.splits prod.splits option.splits)
  from enqueue_started [OF a(2)] a(3) assms(1) show ?thesis
    by (auto simp: interrupt_def)
qed

lemma interrupt_cursor: "nextStartTime c = 0 \<Longrightarrow> nextStartTime (interrupt m c) = 0"
  by (simp add: interrupt_def)

lemma interrupt_startTimes: "startTimes (effects (interrupt m c)) = startTimes (effects c)"
  by (simp add: interrupt_def startTimes_append startTimes_stops)

lemma deliver_no_audio:
  assumes "\<forall>x \<in> set ms. base64Audio (snd x) = Inr None" "nextStartTime c = 0"
  shows "\<exists>c'. deliver ms c = (c', []) \<and> nextStartTime c' = 0
           \<and> outputAudioContextRef c' = outputAudioContextRef c
           \<and> startTimes (effects c') = startTimes (effects c)"
  using assms
proof (induction ms arbitrary: c)
  case Nil
  then show ?case by simp
next
  case (Cons x ms)
  obtain t m where x: "x = (t, m)" by (cases x)
  let ?c1 = "interrupt m (completeTurn m (appendTranscriptions m c))"
  from Cons.prems(1) x have m: "base64Audio m = Inr None" by simp
  have 1: "onmessage t m c = (?c1, None)" by (rule onmessage_no_audio [OF m])
  have 2: "nextStartTime ?c1 = 0" using Cons.prems(2) by (simp add: interrupt_cursor)
  from Cons.prems(1) have "\<forall>x \<in> set ms. base64Audio (snd x) = Inr None" by simp
  from Cons.IH [OF this 2] obtain c' where
    c': "deliver ms ?c1 = (c', [])" "nextStartTime c' = 0"
        "outputAudioContextRef c' = outputAudioContextRef ?c1"
        "startTimes (effects c') = startTimes (effects ?c1)"
    by auto
  from c' 1 x show ?case by (simp add: interrupt_startTimes)
qed

subsection \<open>Chunks of odd and even length\<close>

lemma decodeChunk_odd:
  assumes "decode b = Inr bytes" "odd (length bytes)"
  shows "decodeChunk ctx b = Inl RangeError"
  using assms by (simp add: decodeChunk_def decodeAudioData_def Int16Array_of_def)

lemma length_int16Pairs: "length (int16Pairs bytes) = length bytes div 2"
  by (induction bytes rule: int16Pairs.induct) simp_all

lemma decodeChunk_even:
  assumes "decode b = Inr bytes" "even (length bytes)" "\<not> refuses ctx 1 (length bytes div 2) 24000"
  shows "\<exists>buf. decodeChunk ctx b = Inr buf"
  using assms
  by (simp add: decodeChunk_def decodeAudioData_def Int16Array_of_def createBuffer_def
      length_int16Pairs)

subsection \<open>Fragments and turns\<close>

lemma onmessage_fragment_user:
  "onmessage t (fragment User x) c =
     (c\<lparr>currentInputTranscription := currentInputTranscription c @ x\<rparr>, None)"
  by (simp add: onmessage_def fragment_def userFragment_def noContent_def Let_def
      appendTranscriptions_def completeTurn_def isTurnComplete_def base64Audio_def enqueue_none
      interrupt_def isInterrupted_def textOf_def)

lemma onmessage_fragment_model:
  "onmessage t (fragment Model x) c =
     (c\<lparr>currentOutputTranscription := currentOutputTranscription c @ x\<rparr>, None)"
  by (simp add: onmessage_def fragment_def modelFragment_def noContent_def Let_def
      appendTranscriptions_def completeTurn_def isTurnComplete_def base64Audio_def enqueue_none
      interrupt_def isInterrupted_def textOf_def)

lemma said_Cons:
  "said sp ((t, s, x) # fs) = (if s = sp then x else []) @ said sp fs"
  by (simp add: said_def)

lemma deliver_fragments:
  "deliver (fragments fs) c =
     (c\<lparr>currentInputTranscription := currentInputTranscription c @ said User fs,
         currentOutputTranscription := currentOutputTranscription c @ said Model fs\<rparr>, [])"
proof (induction fs arbitrary: c)
  case Nil
  then show ?case by (simp add: fragments_def said_def)
next
  case (Cons f fs)
  obtain t s x where f: "f = (t, s, x)" by (cases f)
  have fr: "fragments ((t, s, x) # fs) = (t, fragment s x) # fragments fs"
    by (simp add: fragments_def)
  show ?case
  proof (cases s)
    case User
    then show ?thesis
      unfolding f fr by (simp add: onmessage_fragment_user Cons.IH said_Cons)
  next
    case Model
    then show ?thesis
      unfolding f fr by (simp add: onmessage_fragment_model Cons.IH said_Cons)
  qed
qed

lemma onmessage_turnComplete:
  "onmessage t turnCompleteMessage c =
     (c\<lparr>transcripts := transcripts c
           @ (if currentInputTranscription c \<noteq> []
              then [[(''speaker'', JString ''user''), (''text'', JString (currentInputTranscription c))]]
              else [])
           @ (if currentOutputTranscription c \<noteq> []
              then [[(''speaker'', JString ''model''), (''text'', JString (currentOutputTranscription c))]]
              else []),
         currentInputTranscription := [],
         currentOutputTranscription := []\<rparr>, None)"
  by (simp add: onmessage_def turnCompleteMessage_def noContent_def Let_def
      appendTranscriptions_def completeTurn_def isTurnComplete_def base64Audio_def enqueue_none
      interrupt_def isInterrupted_def)

lemma deliver_turn:
  "deliver (fragments fs @ [(now, turnCompleteMessage)]) c =
     (c\<lparr>transcripts := transcripts c
           @ (if currentInputTranscription c @ said User fs \<noteq> []
              then [[(''speaker'', JString ''user''),
                     (''text'', JString (currentInputTranscription c @ said User fs))]]
              else [])
           @ (if currentOutputTranscription c @ said Model fs \<noteq> []
              then [[(''speaker'', JString ''model''),
                     (''text'', JString (currentOutputTranscription c @ said Model fs))]]
              else []),
         currentInputTranscription := [],
         currentOutputTranscription := []\<rparr>, [])"
  by (simp add: deliver_append deliver_fragments onmessage_turnComplete)

section \<open>Examples\<close>

lemma listening_eq:
  "listening =
     \<lparr>isListening = True, status = ''Connecting...'', transcripts = [],
      sessionPromiseRef = Some 3, mediaStreamRef = Some 0,
      inputAudioContextRef = Some (newAudioContext 1 16000),
      outputAudioContextRef = Some (newAudioContext 2 24000),
      scriptProcessorRef = None, mediaStreamSourceRef = None,
      currentInputTranscription = [], currentOutputTranscription = [],
      nextStartTime = 0, sources = [], effects = [GetUserMedia, Connect 3], fresh = 4,
      awaitingStream = 0\<rparr>"
  by (simp add: listening_def startConversation_def gotUserMedia_def initial_def Let_def
      numeral_2_eq_2)

lemma listening_fields:
  "isListening listening" "nextStartTime listening = 0" "sources listening = []"
  "effects listening = [GetUserMedia, Connect 3]" "fresh listening = 4"
  "outputAudioContextRef listening = Some (newAudioContext 2 24000)"
  "sessionPromiseRef listening = Some 3" "mediaStreamRef listening = Some 0"
  "inputAudioContextRef listening = Some (newAudioContext 1 16000)"
  "scriptProcessorRef listening = None" "mediaStreamSourceRef listening = None"
  by (simp_all add: listening_eq)

lemma listening_ctx: "outputAudioContextRef listening = Some (newAudioContext 2 24000)"
  by (rule listening_fields)

lemma active_eq:
  "active =
     \<lparr>isListening = True, status = ''Connected. You can start speaking now.'', transcripts = [],
      sessionPromiseRef = Some 3, mediaStreamRef = Some 0,
      inputAudioContextRef = Some (newAudioContext 1 16000),
      outputAudioContextRef = Some (newAudioContext 2 24000),
      scriptProcessorRef = Some 5, mediaStreamSourceRef = Some 4,
      currentInputTranscription = [], currentOutputTranscription = [],
      nextStartTime = 0, sources = [], effects = [GetUserMedia, Connect 3], fresh = 6,
      awaitingStream = 0\<rparr>"
  by (simp add: active_def listening_eq onopen_def Let_def)


lemma raced_eq:
  "raced =
     \<lparr>isListening = False, status = ''Conversation ended.'', transcripts = [],
      sessionPromiseRef = Some 3, mediaStreamRef = Some 0,
      inputAudioContextRef = Some (newAudioContext 1 16000),
      outputAudioContextRef = Some (newAudioContext 2 24000),
      scriptProcessorRef = None, mediaStreamSourceRef = None,
      currentInputTranscription = [], currentOutputTranscription = [],
      nextStartTime = 0, sources = [], effects = [GetUserMedia, Connect 3], fresh = 4,
      awaitingStream = 0\<rparr>"
  by (simp add: raced_def startConversation_def gotUserMedia_def initial_def Let_def
      numeral_2_eq_2 stopConversation_def closeSession_def stopTracks_def
      disconnectProcessor_def disconnectSource_def closeInput_def closeOutput_def)

lemma stop_active:
  "stopConversation active =
     \<lparr>isListening = False, status = ''Conversation ended.'', transcripts = [],
      sessionPromiseRef = None, mediaStreamRef = None,
      inputAudioContextRef = None, outputAudioContextRef = None,
      scriptProcessorRef = None, mediaStreamSourceRef = None,
      currentInputTranscription = [], currentOutputTranscription = [],
      nextStartTime = 0, sources = [],
      effects = [GetUserMedia, Connect 3, SessionClose 3, TrackStop 0, Disconnect 5,
                 Disconnect 4, ContextClose 1, ContextClose 2],
      fresh = 6, awaitingStream = 0\<rparr>"
  by (simp add: active_eq stopConversation_def closeSession_def stopTracks_def
      disconnectProcessor_def disconnectSource_def closeInput_def closeOutput_def
      newAudioContext_def)

lemma decode_two_bytes: "decode ''AAA='' = Inr [0, 0]"
  by (simp add: decode_def atob_def isAsciiWhitespace_def removePadding_def b64val_def)

lemma decode_one_byte: "decode ''AA=='' = Inr [0]"
  by (simp add: decode_def atob_def isAsciiWhitespace_def removePadding_def b64val_def)

lemma base64Audio_audioMessage: "base64Audio (audioMessage b) = Inr (Some b)"
  by (simp add: base64Audio_def audioMessage_def noContent_def)

lemma isInterrupted_simps:
  "\<not> isInterrupted (audioMessage b)" "isInterrupted interruptedMessage"
  "\<not> isInterrupted (userFragment t)"
  by (simp_all add: isInterrupted_def audioMessage_def interruptedMessage_def userFragment_def
      noContent_def)

lemma base64Audio_none:
  "base64Audio interruptedMessage = Inr None" "base64Audio (userFragment t) = Inr None"
  by (simp_all add: base64Audio_def interruptedMessage_def userFragment_def noContent_def)

lemma no_transcript:
  "appendTranscriptions (audioMessage b) c = c" "completeTurn (audioMessage b) c = c"
  "appendTranscriptions interruptedMessage c = c" "completeTurn interruptedMessage c = c"
  by (simp_all add: appendTranscriptions_def completeTurn_def isTurnComplete_def
      audioMessage_def interruptedMessage_def noContent_def)

lemma one_frame_buffer:
  "decodeChunk (newAudioContext i 24000) ''AAA='' = Inr \<lparr>channelData = [[0]], bufferRate = 24000\<rparr>"
  by (simp add: decodeChunk_def decode_two_bytes
      decodeAudioData_def Int16Array_of_def createBuffer_def newAudioContext_def
      webAudioRefuses_def)

lemma one_frame:
  "chunkDuration (newAudioContext i 24000) (audioMessage ''AAA='') = Some (1 / 24000)"
  by (simp add: chunkDuration_def base64Audio_audioMessage decodeChunk_def decode_two_bytes
      decodeAudioData_def Int16Array_of_def createBuffer_def newAudioContext_def
      webAudioRefuses_def duration_def)

lemma playing:
  "onmessage 1 (audioMessage ''AAA='') listening =
     (listening\<lparr>effects := [GetUserMedia, Connect 3, SourceStart 4 1 (1 / 24000)],
                nextStartTime := 1 + 1 / 24000, sources := [4], fresh := 5\<rparr>, None)"
proof -
  have ne: "''AAA='' \<noteq> []" by simp
  from enqueue_ok [OF listening_ctx ne one_frame_buffer, of 1] show ?thesis
    by (simp add: onmessage_def Let_def no_transcript base64Audio_audioMessage interrupt_def
        isInterrupted_simps listening_fields duration_def)
qed

lemma interrupted_playing:
  "onmessage 5 interruptedMessage (fst (onmessage 1 (audioMessage ''AAA='') listening)) =
     (listening\<lparr>effects := [GetUserMedia, Connect 3, SourceStart 4 1 (1 / 24000), SourceStop 4],
                nextStartTime := 0, sources := [], fresh := 5\<rparr>, None)"
  by (simp add: playing onmessage_no_audio base64Audio_none interrupt_def isInterrupted_simps
      no_transcript)

section \<open>The claims about the controller\<close>

text \<open>
  C2, as the code has it. Audio messages that decode and carry no interruption are
  handled without an exception; the first chunk starts at the later of cursor and clock,
  chunk \<open>i + 1\<close> starts at the later of the end of chunk \<open>i\<close> and the clock of its own
  enqueue, no chunk starts before the clock of its enqueue, and no enqueue, failed ones
  included, lowers the cursor. So \<open>start (i + 1) = start i + d i\<close> holds when the clock
  has not passed the cursor, and a chunk that arrives late starts later than that.
\<close>

theorem gapless_playback:
  assumes "outputAudioContextRef c = Some ctx"
    and "length ds = length ms"
    and "\<forall>i < length ms. chunkDuration ctx (snd (ms ! i)) = Some (ds ! i)
           \<and> \<not> isInterrupted (snd (ms ! i))"
  shows "\<exists>c' ws. deliver ms c = (c', [])
           \<and> startTimes (effects c') = startTimes (effects c) @ ws
           \<and> length ws = length ms
           \<and> (\<forall>i < length ms. fst (ms ! i) \<le> ws ! i)
           \<and> (ms \<noteq> [] \<longrightarrow> ws ! 0 = max (nextStartTime c) (fst (ms ! 0)))
           \<and> (\<forall>i. Suc i < length ms \<longrightarrow>
                 ws ! Suc i = max (ws ! i + ds ! i) (fst (ms ! Suc i)))
           \<and> nextStartTime c \<le> nextStartTime c'
           \<and> (\<forall>now audio k. nextStartTime k \<le> nextStartTime (fst (enqueue now audio k)))"
proof -
  let ?xs = "zip (map fst ms) ds"
  let ?ws = "gapless (nextStartTime c) ?xs"
  have "list_all2 (\<lambda>x d. chunkDuration ctx (snd x) = Some d \<and> \<not> isInterrupted (snd x)) ms ds"
    using assms(2,3) by (simp add: list_all2_conv_all_nth)
  from deliver_gapless [OF assms(1) this] obtain c' where
    c': "deliver ms c = (c', [])" "startTimes (effects c') = startTimes (effects c) @ ?ws"
        "nextStartTime c \<le> nextStartTime c'"
    by auto
  have len: "length ?xs = length ms" by (simp add: assms(2))
  have 1: "length ?ws = length ms" by (simp only: gapless_length len)
  have 2: "\<forall>i < length ms. fst (ms ! i) \<le> ?ws ! i"
  proof (intro allI impI)
    fix i assume i: "i < length ms"
    then have "fst (?xs ! i) \<le> ?ws ! i" by (intro gapless_clock) (simp add: assms(2))
    with i assms(2) show "fst (ms ! i) \<le> ?ws ! i" by simp
  qed
  have 3: "ms \<noteq> [] \<longrightarrow> ?ws ! 0 = max (nextStartTime c) (fst (ms ! 0))"
  proof
    assume ne: "ms \<noteq> []"
    then have "?xs \<noteq> []" by (cases ms; cases ds) (use assms(2) in auto)
    from gapless_first [OF this] ne assms(2) show "?ws ! 0 = max (nextStartTime c) (fst (ms ! 0))"
      by simp
  qed
  have 4: "\<forall>i. Suc i < length ms \<longrightarrow> ?ws ! Suc i = max (?ws ! i + ds ! i) (fst (ms ! Suc i))"
  proof (intro allI impI)
    fix i assume i: "Suc i < length ms"
    then have "Suc i < length ?xs" by (simp add: assms(2))
    from gapless_step [OF this] i assms(2)
    show "?ws ! Suc i = max (?ws ! i + ds ! i) (fst (ms ! Suc i))" by simp
  qed
  from c' 1 2 3 4 enqueue_cursor show ?thesis by blast
qed

theorem gapless_playback_witness:
  "\<exists>c'. deliver [(0, audioMessage ''AAA=''), (1 / 48000, audioMessage ''AAA='')] listening
            = (c', [])
     \<and> startTimes (effects c') = [0, 1 / 24000]
     \<and> nextStartTime listening \<le> nextStartTime c'"
proof -
  let ?ms = "[(0 :: rat, audioMessage ''AAA=''), (1 / 48000, audioMessage ''AAA='')]"
  let ?ds = "[1 / 24000, 1 / 24000 :: rat]"
  have l: "length ?ds = length ?ms" by simp
  have d: "\<forall>i < length ?ms. chunkDuration (newAudioContext 2 24000) (snd (?ms ! i)) = Some (?ds ! i)
             \<and> \<not> isInterrupted (snd (?ms ! i))"
    by (simp add: less_Suc_eq one_frame isInterrupted_simps numeral_2_eq_2)
  from gapless_playback [OF listening_ctx l d] obtain c' ws where
    w: "deliver ?ms listening = (c', [])"
       "startTimes (effects c') = startTimes (effects listening) @ ws"
       "length ws = length ?ms"
       "?ms \<noteq> [] \<longrightarrow> ws ! 0 = max (nextStartTime listening) (fst (?ms ! 0))"
       "\<forall>i. Suc i < length ?ms \<longrightarrow> ws ! Suc i = max (ws ! i + ?ds ! i) (fst (?ms ! Suc i))"
       "nextStartTime listening \<le> nextStartTime c'"
    by (elim exE conjE)
  from w(4) have 0: "ws ! 0 = 0" by (simp add: listening_fields)
  from w(5) have "ws ! Suc 0 = max (ws ! 0 + 1 / 24000) (1 / 48000)" by simp
  with 0 have 1: "ws ! Suc 0 = 1 / 24000" by simp
  from w(3) obtain a b where "ws = [a, b]"
    by (cases ws; cases "tl ws") auto
  with 0 1 have "ws = [0, 1 / 24000]" by simp
  with w(1,2,6) show ?thesis by (simp add: listening_fields)
qed

text \<open>
  The equation of the claim fails for a late chunk: one frame enqueued at clock 0 ends at
  \<open>1 / 24000\<close>, and the next, enqueued at clock 1, starts at 1.
\<close>

theorem late_chunk_counterexample:
  "startTimes (effects (fst (deliver [(0, audioMessage ''AAA=''), (1, audioMessage ''AAA='')]
      listening))) = [0, 1]
   \<and> chunkDuration (newAudioContext 2 24000) (audioMessage ''AAA='') = Some (1 / 24000)
   \<and> (1 :: rat) \<noteq> 0 + 1 / 24000"
proof -
  let ?ms = "[(0 :: rat, audioMessage ''AAA=''), (1, audioMessage ''AAA='')]"
  have "list_all2 (\<lambda>x d. chunkDuration (newAudioContext 2 24000) (snd x) = Some d
          \<and> \<not> isInterrupted (snd x)) ?ms [1 / 24000, 1 / 24000]"
    by (simp add: one_frame isInterrupted_simps)
  from deliver_gapless [OF listening_ctx this]
  have "startTimes (effects (fst (deliver ?ms listening))) = [0, 1]"
    by (auto simp: listening_fields)
  then show ?thesis by (simp add: one_frame)
qed

text \<open>
  C3, as the code has it. A message with the \<open>interrupted\<close> flag that the handler gets
  through stops every source that was in the active set, and the source that the same
  message may have started, leaves the set empty and sets the cursor to 0.
\<close>

theorem interrupt_semantics:
  assumes "isInterrupted m" "onmessage now m c = (c', None)"
  shows "(\<forall>n \<in> set (sources c). SourceStop n \<in> set (effects c'))
           \<and> (\<forall>n w d. SourceStart n w d \<in> set (effects c') \<longrightarrow>
                 SourceStart n w d \<in> set (effects c) \<or> SourceStop n \<in> set (effects c'))
           \<and> sources c' = [] \<and> nextStartTime c' = 0"
  using onmessage_interrupted [OF assms] onmessage_interrupted_new [OF assms] by simp

theorem interrupt_semantics_witness:
  "SourceStop 4 \<in> set (effects (fst (onmessage 5 interruptedMessage
       (fst (onmessage 1 (audioMessage ''AAA='') listening)))))
   \<and> sources (fst (onmessage 5 interruptedMessage
       (fst (onmessage 1 (audioMessage ''AAA='') listening)))) = []
   \<and> nextStartTime (fst (onmessage 5 interruptedMessage
       (fst (onmessage 1 (audioMessage ''AAA='') listening)))) = 0"
proof -
  let ?c = "fst (onmessage 1 (audioMessage ''AAA='') listening)"
  have 1: "isInterrupted interruptedMessage" by (rule isInterrupted_simps)
  have 2: "onmessage 5 interruptedMessage ?c = (fst (onmessage 5 interruptedMessage ?c), None)"
    by (simp add: interrupted_playing)
  have 3: "sources ?c = [4]" by (simp add: playing)
  from interrupt_semantics [OF 1 2] 3 show ?thesis by simp
qed

text \<open>The cursor after an interruption handled at clock 5 is not 5.\<close>

theorem interrupt_cursor_counterexample:
  "nextStartTime (fst (onmessage 5 interruptedMessage
      (fst (onmessage 1 (audioMessage ''AAA='') listening)))) \<noteq> 5"
  by (simp add: interrupted_playing)

text \<open>
  C4. After an interruption, and after any messages without audio that follow it, the
  next chunk is started at the clock value of its own enqueue. The clock of an audio
  context is never negative.
\<close>

theorem interrupt_resets_next_enqueue:
  assumes "isInterrupted m0" "onmessage now0 m0 c = (c1, None)"
    and "\<forall>x \<in> set between. base64Audio (snd x) = Inr None"
    and "outputAudioContextRef c1 = Some ctx" "chunkDuration ctx m = Some d"
    and "0 \<le> now"
  shows "\<exists>c2 c3. deliver between c1 = (c2, []) \<and> onmessage now m c2 = (c3, None)
           \<and> startTimes (effects c3) = startTimes (effects c2) @ [now]"
proof -
  have "nextStartTime c1 = 0" by (rule onmessage_interrupted(2) [OF assms(1,2)])
  from deliver_no_audio [OF assms(3) this] assms(4) obtain c2 where
    c2: "deliver between c1 = (c2, [])" "nextStartTime c2 = 0" "outputAudioContextRef c2 = Some ctx"
    by auto
  from onmessage_audio [OF c2(3) assms(5), of now] c2(2) assms(6) obtain c3 where
    "onmessage now m c2 = (c3, None)" "startTimes (effects c3) = startTimes (effects c2) @ [now]"
    by (auto simp: max_def)
  with c2(1) show ?thesis by blast
qed

theorem interrupt_resets_next_enqueue_witness:
  "\<exists>c2 c3. deliver [(6, userFragment ''hi'')]
              (fst (onmessage 5 interruptedMessage
                 (fst (onmessage 1 (audioMessage ''AAA='') listening)))) = (c2, [])
     \<and> onmessage 7 (audioMessage ''AAA='') c2 = (c3, None)
     \<and> startTimes (effects c3) = startTimes (effects c2) @ [7]"
proof -
  let ?c = "fst (onmessage 1 (audioMessage ''AAA='') listening)"
  let ?c1 = "fst (onmessage 5 interruptedMessage ?c)"
  have 1: "isInterrupted interruptedMessage" by (rule isInterrupted_simps)
  have 2: "onmessage 5 interruptedMessage ?c = (?c1, None)"
    by (simp add: interrupted_playing)
  have 3: "\<forall>x \<in> set [(6 :: rat, userFragment ''hi'')]. base64Audio (snd x) = Inr None"
    by (simp add: base64Audio_none)
  have 4: "outputAudioContextRef ?c1 = Some (newAudioContext 2 24000)"
    by (simp add: interrupted_playing listening_fields)
  have 5: "(0 :: rat) \<le> 7" by simp
  from interrupt_resets_next_enqueue [OF 1 2 3 4 one_frame 5] show ?thesis .
qed

text \<open>
  C5, as the code has it. With the one channel of the handler, a chunk of odd byte
  length makes the handler end with a \<open>RangeError\<close>: nothing is started, the active set,
  the session, the stream and the listening flag stay as they are. A chunk of even
  length that the context allocates a buffer for is handled without an exception.
\<close>

theorem malformed_chunk:
  assumes "outputAudioContextRef c = Some ctx"
    and "base64Audio m = Inr (Some b)" "b \<noteq> []" "decode b = Inr bytes"
  shows "(odd (length bytes) \<longrightarrow>
            (\<exists>c'. onmessage now m c = (c', Some RangeError)
               \<and> effects c' = effects c \<and> sources c' = sources c
               \<and> isListening c' = isListening c
               \<and> sessionPromiseRef c' = sessionPromiseRef c
               \<and> mediaStreamRef c' = mediaStreamRef c
               \<and> outputAudioContextRef c' = outputAudioContextRef c))
         \<and> (even (length bytes) \<and> \<not> refuses ctx 1 (length bytes div 2) 24000 \<longrightarrow>
               snd (onmessage now m c) = None)"
proof (intro conjI impI)
  let ?c1 = "completeTurn m (appendTranscriptions m c)"
  have ref: "outputAudioContextRef ?c1 = Some ctx" using assms(1) by simp
  {
    assume "odd (length bytes)"
    then have "decodeChunk ctx b = Inl RangeError" by (rule decodeChunk_odd [OF assms(4)])
    from enqueue_fail [OF ref assms(3) this] assms(2)
    show "\<exists>c'. onmessage now m c = (c', Some RangeError)
               \<and> effects c' = effects c \<and> sources c' = sources c
               \<and> isListening c' = isListening c
               \<and> sessionPromiseRef c' = sessionPromiseRef c
               \<and> mediaStreamRef c' = mediaStreamRef c
               \<and> outputAudioContextRef c' = outputAudioContextRef c"
      by (simp add: onmessage_def Let_def)
  next
    assume "even (length bytes) \<and> \<not> refuses ctx 1 (length bytes div 2) 24000"
    then obtain buf where "decodeChunk ctx b = Inr buf"
      using decodeChunk_even [OF assms(4)] by blast
    from enqueue_ok [OF ref assms(3) this] assms(2)
    show "snd (onmessage now m c) = None"
      by (simp add: onmessage_def Let_def)
  }
qed

theorem malformed_chunk_witness:
  "(\<exists>c'. onmessage 0 (audioMessage ''AA=='') listening = (c', Some RangeError)
      \<and> effects c' = effects listening \<and> sources c' = sources listening
      \<and> isListening c' = isListening listening
      \<and> sessionPromiseRef c' = sessionPromiseRef listening
      \<and> mediaStreamRef c' = mediaStreamRef listening
      \<and> outputAudioContextRef c' = outputAudioContextRef listening)
   \<and> snd (onmessage 0 (audioMessage ''AAA='') listening) = None"
proof -
  have ne: "''AA=='' \<noteq> []" "''AAA='' \<noteq> []" by simp_all
  have r: "\<not> refuses (newAudioContext 2 24000) 1 (length [0, 0 :: 8 word] div 2) 24000"
    by (simp add: newAudioContext_def webAudioRefuses_def)
  from malformed_chunk [OF listening_ctx base64Audio_audioMessage ne(1) decode_one_byte, of 0]
    malformed_chunk [OF listening_ctx base64Audio_audioMessage ne(2) decode_two_bytes, of 0] r
  show ?thesis by simp
qed

text \<open>The exception of a one-byte chunk leaves the handler.\<close>

theorem malformed_chunk_counterexample:
  "snd (onmessage 0 (audioMessage ''AA=='') listening) = Some RangeError"
proof -
  have "decodeChunk (newAudioContext 2 24000) ''AA=='' = Inl RangeError"
    by (rule decodeChunk_odd [OF decode_one_byte]) simp
  then show ?thesis
    by (simp add: onmessage_def Let_def base64Audio_audioMessage enqueue_def no_transcript
        listening_fields)
qed

text \<open>
  C6, as the code has it. Fragments in any order followed by a completed turn add the
  user's entry, then the model's, each only when its text is not empty and each made of
  a speaker and a text; both accumulators are empty afterwards.
\<close>

theorem transcript_turn:
  "\<exists>c'. deliver (fragments fs @ [(now, turnCompleteMessage)]) c = (c', [])
     \<and> transcripts c' = transcripts c
          @ (if currentInputTranscription c @ said User fs \<noteq> []
             then [[(''speaker'', JString ''user''),
                    (''text'', JString (currentInputTranscription c @ said User fs))]]
             else [])
          @ (if currentOutputTranscription c @ said Model fs \<noteq> []
             then [[(''speaker'', JString ''model''),
                    (''text'', JString (currentOutputTranscription c @ said Model fs))]]
             else [])
     \<and> currentInputTranscription c' = [] \<and> currentOutputTranscription c' = []"
  by (simp add: deliver_turn)

theorem transcript_turn_witness:
  "transcripts (fst (deliver (fragments [(0, User, ''a''), (1, User, ''b''), (2, Model, ''c'')]
       @ [(3, turnCompleteMessage)]) initial))
     = [[(''speaker'', JString ''user''), (''text'', JString ''ab'')],
        [(''speaker'', JString ''model''), (''text'', JString ''c'')]]
   \<and> transcripts (fst (deliver (fragments [(0, User, ''a''), (1, Model, ''c''), (2, User, ''b'')]
       @ [(3, turnCompleteMessage)]) initial))
     = [[(''speaker'', JString ''user''), (''text'', JString ''ab'')],
        [(''speaker'', JString ''model''), (''text'', JString ''c'')]]
   \<and> transcripts (fst (deliver (fragments [(0, Model, ''c''), (1, User, ''a''), (2, User, ''b'')]
       @ [(3, turnCompleteMessage)]) initial))
     = [[(''speaker'', JString ''user''), (''text'', JString ''ab'')],
        [(''speaker'', JString ''model''), (''text'', JString ''c'')]]
   \<and> currentInputTranscription (fst (deliver (fragments
         [(0, User, ''a''), (1, Model, ''c''), (2, User, ''b'')] @ [(3, turnCompleteMessage)])
         initial)) = []
   \<and> currentOutputTranscription (fst (deliver (fragments
         [(0, User, ''a''), (1, Model, ''c''), (2, User, ''b'')] @ [(3, turnCompleteMessage)])
         initial)) = []"
  using transcript_turn [of "[(0, User, ''a''), (1, User, ''b''), (2, Model, ''c'')]" 3 initial]
    transcript_turn [of "[(0, User, ''a''), (1, Model, ''c''), (2, User, ''b'')]" 3 initial]
    transcript_turn [of "[(0, Model, ''c''), (1, User, ''a''), (2, User, ''b'')]" 3 initial]
  by (auto simp: said_def initial_def)

text \<open>The entries carry no turn index.\<close>

theorem turn_index_counterexample:
  "transcripts (fst (deliver (fragments [(0, User, ''a''), (1, User, ''b''), (2, Model, ''c'')]
       @ [(3, turnCompleteMessage)]) initial))
     \<noteq> [[(''speaker'', JString ''user''), (''text'', JString ''ab''), (''turn'', JNumber 0)],
         [(''speaker'', JString ''model''), (''text'', JString ''c''), (''turn'', JNumber 0)]]"
  by (simp add: deliver_turn said_def initial_def)

text \<open>
  C7. The claim fails when a stop comes while the first start waits for the microphone.
  The stop clears the flag and finds nothing to release; the waiting start then goes
  on, takes the stream and opens session 3 with the flag still clear. A second start is
  not rejected: it asks for the microphone again and opens session 7 while session 3 is
  open, and the references to stream 0 and session 3 are overwritten, so that a stop
  afterwards releases only the second set.
\<close>

theorem stop_during_wait_two_sessions:
  "isListening raced = False
     \<and> sessionPromiseRef raced = Some 3 \<and> mediaStreamRef raced = Some 0
     \<and> effects raced = [GetUserMedia, Connect 3]
     \<and> effects (startConversation raced) = [GetUserMedia, Connect 3, GetUserMedia]
     \<and> effects (gotUserMedia True (startConversation raced))
          = [GetUserMedia, Connect 3, GetUserMedia, Connect 7]
     \<and> effects (stopConversation (gotUserMedia True (startConversation raced)))
          = [GetUserMedia, Connect 3, GetUserMedia, Connect 7,
             SessionClose 7, TrackStop 4, ContextClose 5, ContextClose 6]"
  by (simp add: stop_releases)
    (simp add: raced_eq startConversation_def gotUserMedia_def Let_def newAudioContext_def)



text \<open>
  C9. The claim fails on \<open>onclose\<close>: after a remote close of an active session the
  stream, both contexts and the processor are still referenced and the trace has no
  release, while \<open>onerror\<close> and \<open>stopConversation\<close> stop the stream's tracks.
\<close>

theorem remote_close_keeps_resources:
  "mediaStreamRef (onclose active) = Some 0
     \<and> inputAudioContextRef (onclose active) = Some (newAudioContext 1 16000)
     \<and> outputAudioContextRef (onclose active) = Some (newAudioContext 2 24000)
     \<and> scriptProcessorRef (onclose active) = Some 5
     \<and> effects (onclose active) = effects active
     \<and> TrackStop 0 \<notin> set (effects (onclose active))
     \<and> TrackStop 0 \<in> set (effects (onerror ''lost'' active))
     \<and> TrackStop 0 \<in> set (effects (stopConversation active))"
proof -
  have "onerror ''lost'' active = (stopConversation active)"
    by (simp add: onerror_def active_eq stopConversation_def closeSession_def stopTracks_def
      disconnectProcessor_def disconnectSource_def closeInput_def closeOutput_def
      newAudioContext_def)
  then show ?thesis
    by (simp add: stop_active) (simp add: onclose_def active_eq)
qed

end
